theory Spec2Isabelle
  imports Main "HOL-Library.Word" "HOL-Library.Multiset" "HOL-Library.Char_ord"
    "HOL-Library.List_Lexorder" "HOL-Library.AList"
begin

section \<open>Data model\<close>

text \<open>
  The Go struct \<^verbatim>\<open>Icon\<close>. Go's \<^verbatim>\<open>int\<close> fields are only compared and printed, never
  added or multiplied, so they are mathematical integers here. A Go string is a byte
  sequence, as an Isabelle \<open>string\<close> is; \<open><\<close> on strings is the byte-wise lexicographic
  order in both. A \<^verbatim>\<open>*Icon\<close> that may be nil is an \<open>Icon option\<close>.
\<close>

record Icon =
  URL :: string
  MimeType :: string
  FileExt :: string
  Width :: int
  Height :: int
  Hash :: string

text \<open>
  \<^verbatim>\<open>type Filter func(*Icon) *Icon\<close>: a nil result rejects the icon, any other result
  replaces it. A filter is a function of the icon alone.
\<close>

type_synonym Filter = "Icon \<Rightarrow> Icon option"

text \<open>The fields of \<^verbatim>\<open>net/url.URL\<close> that the package reads or that a reference carries.\<close>

record url =
  Scheme :: string
  Host :: string
  Path :: string
  RawQuery :: string
  Fragment :: string

text \<open>What \<^verbatim>\<open>net/http\<close> hands over: a request and a response.\<close>

record Request =
  Method :: string
  ReqURL :: string
  Header :: "(string \<times> string) list"

record Response =
  StatusCode :: int
  Status :: string
  Body :: string

text \<open>
  \<^verbatim>\<open>Finder\<close>. The HTTP client is the function from a request to the transport's answer
  (\<open>Inl\<close> the transport error). The logger is not a field here: what is printed to it is
  collected in the \<open>world\<close> below.
\<close>

record Finder =
  ignoreManifest :: bool
  ignoreWellKnown :: bool
  client :: "Request \<Rightarrow> string + Response"
  filters :: "Filter list"

type_synonym Option = "Finder \<Rightarrow> Finder"

text \<open>\<^verbatim>\<open>parser\<close>; its field \<^verbatim>\<open>find\<close> is \<open>pfind\<close> here.\<close>

record parser =
  baseURL :: "url option"
  charset :: string
  pfind :: Finder

text \<open>
  The functions that \<^verbatim>\<open>favicon.go\<close> and the icon code call and do not define: the
  standard library (\<^verbatim>\<open>net/url\<close>, \<^verbatim>\<open>mime\<close>, \<^verbatim>\<open>path/filepath\<close>,
  \<^verbatim>\<open>crypto/sha256\<close>, \<^verbatim>\<open>sort\<close>, \<^verbatim>\<open>net/http\<close>) and the package's helpers
  \<^verbatim>\<open>fileExt\<close> and \<^verbatim>\<open>extractSizeFromURL\<close>, which live with the HTML parser. They
  are parameters of the model: \<open>urls_Parse\<close> is \<open>None\<close> where \<^verbatim>\<open>urls.Parse\<close> returns an
  error, \<open>extractSizeFromURL\<close> is \<open>None\<close> where the helper returns nil, and
  \<open>http_NewRequest\<close> takes the method and the URL.
\<close>

record lib =
  urls_Parse :: "string \<Rightarrow> url option"
  ResolveReference :: "url \<Rightarrow> url \<Rightarrow> url"
  url_String :: "url \<Rightarrow> string"
  mime_TypeByExtension :: "string \<Rightarrow> string"
  filepath_Ext :: "string \<Rightarrow> string"
  fileExt :: "string \<Rightarrow> string"
  extractSizeFromURL :: "string \<Rightarrow> (int \<times> int) option"
  sha256_Sum256 :: "8 word list \<Rightarrow> 8 word list"
  sort_Sort :: "(Icon \<Rightarrow> Icon \<Rightarrow> bool) \<Rightarrow> Icon list \<Rightarrow> Icon list"
  http_NewRequest :: "string \<Rightarrow> string \<Rightarrow> string + Request"

text \<open>
  The effects of a run that are visible outside: the requests handed to the HTTP client
  and the lines printed to the logger, both in order.
\<close>

record world =
  sent :: "Request list"
  logged :: "string list"

section \<open>Formatting\<close>

text \<open>The verbs of \<^verbatim>\<open>fmt\<close> that the package uses: \<^verbatim>\<open>%d\<close> on an int, \<^verbatim>\<open>%x\<close> on bytes.\<close>

definition digit_char :: "nat \<Rightarrow> char" where
  "digit_char n = ''0123456789abcdef'' ! (n mod 16)"

fun fmt_nat :: "nat \<Rightarrow> string" where
  "fmt_nat n = (if n < 10 then [digit_char n] else fmt_nat (n div 10) @ [digit_char (n mod 10)])"

declare fmt_nat.simps [simp del]

definition fmt_d :: "int \<Rightarrow> string" where
  "fmt_d i = (if i < 0 then CHR ''-'' # fmt_nat (nat (- i)) else fmt_nat (nat i))"

definition fmt_x :: "8 word list \<Rightarrow> string" where
  "fmt_x bs = concat (map (\<lambda>b. [digit_char (unat b div 16), digit_char (unat b mod 16)]) bs)"

definition bytes_of :: "string \<Rightarrow> 8 word list" where
  "bytes_of s = map of_char s"

section \<open>Icons and their order\<close>

definition IsSquare :: "Icon \<Rightarrow> bool" where
  "IsSquare i = (Width i = Height i)"

definition formatRank :: "string \<Rightarrow> int" where
  "formatRank mimeType =
     (if mimeType = ''image/png'' then 10
      else if mimeType = ''image/jpeg'' then 9
      else if mimeType = ''image/svg'' then 8
      else if mimeType = ''image/x-icon'' then 7
      else if mimeType = ''image/vnd.microsoft.icon'' then 7
      else 0)"

text \<open>
  The body of \<^verbatim>\<open>ByWidth.Less\<close> on the two icons \<^verbatim>\<open>a, b := v[i], v[j]\<close>. Both ranks are
  taken from \<^verbatim>\<open>a.MimeType\<close>, as the source has it.
\<close>

definition Less_icons :: "Icon \<Rightarrow> Icon \<Rightarrow> bool" where
  "Less_icons a b =
     (if Width a \<noteq> Width b then Width a > Width b
      else let fa = formatRank (MimeType a); fb = formatRank (MimeType a)
           in if fa \<noteq> fb then fa > fb else URL a < URL b)"

text \<open>\<^verbatim>\<open>ByWidth.Less(i, j)\<close>; an index out of range panics in Go (\<open>None\<close>).\<close>

definition ByWidth_Less :: "Icon list \<Rightarrow> nat \<Rightarrow> nat \<Rightarrow> bool option" where
  "ByWidth_Less v i j =
     (if i < length v \<and> j < length v then Some (Less_icons (v ! i) (v ! j)) else None)"

text \<open>
  The order the specification words: width descending, then the format priority of each
  side's own MIME type descending, then URL ascending. Written from the specification,
  to be compared with \<open>Less_icons\<close>.
\<close>

definition spec_Less :: "Icon \<Rightarrow> Icon \<Rightarrow> bool" where
  "spec_Less a b =
     (Width a > Width b
      \<or> (Width a = Width b
         \<and> (formatRank (MimeType a) > formatRank (MimeType b)
            \<or> (formatRank (MimeType a) = formatRank (MimeType b) \<and> URL a < URL b))))"

section \<open>Options and filters\<close>

definition WithFilter :: "Filter list \<Rightarrow> Option" where
  "WithFilter fs f = f\<lparr>filters := filters f @ fs\<rparr>"

definition WithClient :: "(Request \<Rightarrow> string + Response) \<Rightarrow> Option" where
  "WithClient c f = f\<lparr>client := c\<rparr>"

text \<open>The loop of \<^verbatim>\<open>OnlyMimeType\<close>'s filter over the allowed types.\<close>

fun mime_loop :: "string list \<Rightarrow> Icon \<Rightarrow> Icon option" where
  "mime_loop [] i = None"
| "mime_loop (s # ss) i = (if MimeType i = s then Some i else mime_loop ss i)"

definition OnlyMimeType_filter :: "string list \<Rightarrow> Filter" where
  "OnlyMimeType_filter mimeType = (\<lambda>i. mime_loop mimeType i)"

definition OnlyMimeType :: "string list \<Rightarrow> Option" where
  "OnlyMimeType mimeType = WithFilter [OnlyMimeType_filter mimeType]"

definition MinWidth_filter :: "int \<Rightarrow> Filter" where
  "MinWidth_filter width = (\<lambda>icon. if Width icon < width then None else Some icon)"

definition MinWidth :: "int \<Rightarrow> Option" where
  "MinWidth width = WithFilter [MinWidth_filter width]"

definition MaxWidth_filter :: "int \<Rightarrow> Filter" where
  "MaxWidth_filter width = (\<lambda>icon. if Width icon > width then None else Some icon)"

definition MaxWidth :: "int \<Rightarrow> Option" where
  "MaxWidth width = WithFilter [MaxWidth_filter width]"

definition MinHeight_filter :: "int \<Rightarrow> Filter" where
  "MinHeight_filter height = (\<lambda>icon. if Height icon < height then None else Some icon)"

definition MinHeight :: "int \<Rightarrow> Option" where
  "MinHeight height = WithFilter [MinHeight_filter height]"

definition MaxHeight_filter :: "int \<Rightarrow> Filter" where
  "MaxHeight_filter height = (\<lambda>icon. if Height icon > height then None else Some icon)"

definition MaxHeight :: "int \<Rightarrow> Option" where
  "MaxHeight height = WithFilter [MaxHeight_filter height]"

definition IgnoreWellKnown :: Option where
  "IgnoreWellKnown f = f\<lparr>ignoreWellKnown := True\<rparr>"

definition IgnoreManifest :: Option where
  "IgnoreManifest f = f\<lparr>ignoreManifest := True\<rparr>"

definition IgnoreNoSize_filter :: Filter where
  "IgnoreNoSize_filter = (\<lambda>icon. if Width icon = 0 \<or> Height icon = 0 then None else Some icon)"

definition IgnoreNoSize :: Option where
  "IgnoreNoSize = WithFilter [IgnoreNoSize_filter]"

definition OnlyPNG :: Option where
  "OnlyPNG = OnlyMimeType [''image/png'']"

definition OnlyICO_filter :: Filter where
  "OnlyICO_filter =
     (\<lambda>icon. if MimeType icon = ''image/x-icon'' \<or> MimeType icon = ''image/vnd.microsoft.icon''
             then Some icon else None)"

definition OnlyICO :: Option where
  "OnlyICO = WithFilter [OnlyICO_filter]"

definition OnlySquare_filter :: Filter where
  "OnlySquare_filter = (\<lambda>icon. if \<not> IsSquare icon then None else Some icon)"

definition OnlySquare :: Option where
  "OnlySquare = WithFilter [OnlySquare_filter]"

text \<open>
  \<^verbatim>\<open>New\<close>: the default Finder (the default \<^verbatim>\<open>http.Client\<close> is the parameter \<open>c0\<close>),
  then each option applied in turn.
\<close>

definition New :: "(Request \<Rightarrow> string + Response) \<Rightarrow> Option list \<Rightarrow> Finder" where
  "New c0 option =
     foldl (\<lambda>f fn. fn f)
       \<lparr>ignoreManifest = False, ignoreWellKnown = False, client = c0, filters = []\<rparr> option"

definition newParser :: "Finder \<Rightarrow> parser" where
  "newParser f = \<lparr>baseURL = None, charset = [], pfind = f\<rparr>"

section \<open>Fetching and the well-known paths\<close>

definition UserAgent :: string where
  "UserAgent = ''go-favicon/0.1''"

text \<open>
  \<^verbatim>\<open>Finder.fetchURL\<close>: the result is \<open>Inl\<close> the error message or \<open>Inr\<close> the response
  body. \<^verbatim>\<open>errors.Wrap(err, msg)\<close> is \<^verbatim>\<open>msg + ": " + err\<close>.
\<close>

definition fetchURL :: "lib \<Rightarrow> Finder \<Rightarrow> string \<Rightarrow> world \<Rightarrow> (string + string) \<times> world" where
  "fetchURL L f u w =
     (case http_NewRequest L ''GET'' u of
        Inl err \<Rightarrow> (Inl (''request URL: '' @ err), w)
      | Inr req0 \<Rightarrow>
          let req = req0\<lparr>Header := AList.update ''User-Agent'' UserAgent (Header req0)\<rparr>;
              w1 = w\<lparr>sent := sent w @ [req]\<rparr>
          in (case client f req of
                Inl err \<Rightarrow> (Inl (''retrieve URL: '' @ err), w1)
              | Inr resp \<Rightarrow>
                  let w2 = w1\<lparr>logged := logged w1 @
                             [''['' @ fmt_d (StatusCode resp) @ ''] '' @ u]\<rparr>
                  in if StatusCode resp > 299
                     then (Inl (''['' @ fmt_d (StatusCode resp) @ ''] '' @ Status resp), w2)
                     else (Inr (Body resp), w2)))"

definition iconNames :: "string list" where
  "iconNames = [''favicon.ico'', ''apple-touch-icon.png'']"

text \<open>\<^verbatim>\<open>&Icon{URL: u}\<close>: every other field has its zero value.\<close>

definition Icon_of_URL :: "string \<Rightarrow> Icon" where
  "Icon_of_URL u = \<lparr>URL = u, MimeType = [], FileExt = [], Width = 0, Height = 0, Hash = []\<rparr>"

text \<open>The loop of \<^verbatim>\<open>findWellKnownIcons\<close> over the names that are left.\<close>

fun wellKnown_loop ::
  "lib \<Rightarrow> parser \<Rightarrow> string \<Rightarrow> string list \<Rightarrow> Icon list \<Rightarrow> world \<Rightarrow> Icon list \<times> world" where
  "wellKnown_loop L p root [] icons w = (icons, w)"
| "wellKnown_loop L p root (name # names) icons w =
     (let u = root @ name
      in case fetchURL L (pfind p) u w of
           (Inl err, w') \<Rightarrow> wellKnown_loop L p root names icons w'
         | (Inr r, w') \<Rightarrow>
             wellKnown_loop L p root names (icons @ [Icon_of_URL u])
               (w'\<lparr>logged := logged w' @ [''(well-known) '' @ u]\<rparr>))"

definition findWellKnownIcons :: "lib \<Rightarrow> parser \<Rightarrow> world \<Rightarrow> Icon list \<times> world" where
  "findWellKnownIcons L p w =
     (case baseURL p of
        None \<Rightarrow> ([], w)
      | Some b \<Rightarrow> wellKnown_loop L p (Scheme b @ ''://'' @ Host b @ ''/'') iconNames [] w)"

section \<open>Post-processing\<close>

definition absURL :: "lib \<Rightarrow> parser \<Rightarrow> string \<Rightarrow> string" where
  "absURL L p u =
     (if u = [] \<or> baseURL p = None then u
      else case urls_Parse L u of
             None \<Rightarrow> []
           | Some r \<Rightarrow>
               (case baseURL p of
                  Some b \<Rightarrow> url_String L (ResolveReference L b r)
                | None \<Rightarrow> u))"

definition mimeTypeURL :: "lib \<Rightarrow> string \<Rightarrow> string" where
  "mimeTypeURL L u =
     (case urls_Parse L u of
        None \<Rightarrow> []
      | Some r \<Rightarrow> mime_TypeByExtension L (filepath_Ext L (Path r)))"

definition iconHash :: "lib \<Rightarrow> Icon \<Rightarrow> string" where
  "iconHash L i =
     (let s = URL i @ ''-'' @ fmt_d (Width i) @ ''x'' @ fmt_d (Height i)
      in fmt_x (sha256_Sum256 L (bytes_of s)))"

text \<open>
  The body of the first loop of \<^verbatim>\<open>postProcessIcons\<close> up to the hash: \<open>None\<close> is the
  \<^verbatim>\<open>continue\<close>, \<open>Some\<close> the icon that is stored under its hash. The loop writes
  through the pointers of the slice; every element of the list is an icon of its own, as
  the extractors build them.
\<close>

definition normalize_icon :: "lib \<Rightarrow> parser \<Rightarrow> Icon \<Rightarrow> Icon option" where
  "normalize_icon L p icon0 =
     (let icon1 = icon0\<lparr>URL := absURL L p (URL icon0)\<rparr>;
          icon2 = (if MimeType icon1 = [] then icon1\<lparr>MimeType := mimeTypeURL L (URL icon1)\<rparr>
                   else icon1)
      in if URL icon2 = [] \<or> MimeType icon2 = [] then None
         else
           let icon3 = (if FileExt icon2 = [] then icon2\<lparr>FileExt := fileExt L (URL icon2)\<rparr>
                        else icon2);
               icon4 = (if Width icon3 = 0
                        then (case extractSizeFromURL L (URL icon3) of
                                Some (sw, sh) \<Rightarrow> icon3\<lparr>Width := sw, Height := sh\<rparr>
                              | None \<Rightarrow> icon3)
                        else icon3)
           in Some (icon4\<lparr>Hash := iconHash L icon4\<rparr>))"

text \<open>The first loop: the map \<^verbatim>\<open>tidied\<close>, keyed by hash; a later icon overwrites.\<close>

fun tidy :: "lib \<Rightarrow> parser \<Rightarrow> Icon list \<Rightarrow> (string \<rightharpoonup> Icon) \<Rightarrow> (string \<rightharpoonup> Icon)" where
  "tidy L p [] tidied = tidied"
| "tidy L p (icon # icons) tidied =
     (case normalize_icon L p icon of
        None \<Rightarrow> tidy L p icons tidied
      | Some i \<Rightarrow> tidy L p icons (tidied(Hash i \<mapsto> i)))"

text \<open>The inner loop over \<^verbatim>\<open>p.find.filters\<close>: stops at the first nil.\<close>

fun apply_filters :: "Filter list \<Rightarrow> Icon \<Rightarrow> Icon option" where
  "apply_filters [] icon = Some icon"
| "apply_filters (fn # fns) icon =
     (case fn icon of None \<Rightarrow> None | Some i \<Rightarrow> apply_filters fns i)"

text \<open>The second loop, over the values of the map in the order they are visited.\<close>

fun filter_loop :: "Filter list \<Rightarrow> Icon list \<Rightarrow> Icon list" where
  "filter_loop fns [] = []"
| "filter_loop fns (icon # rest) =
     (case apply_filters fns icon of
        None \<Rightarrow> filter_loop fns rest
      | Some i \<Rightarrow> i # filter_loop fns rest)"

text \<open>
  Go leaves the order in which \<^verbatim>\<open>range\<close> visits a map unspecified, and the runtime
  varies it from one loop to the next. A run is therefore given the order of the keys it
  visits; \<open>iteration_order\<close> says that a list is such an order: each key of the map once.
\<close>

definition range_map :: "(string \<rightharpoonup> Icon) \<Rightarrow> string list \<Rightarrow> Icon list" where
  "range_map m order = List.map_filter m order"

definition iteration_order :: "(string \<rightharpoonup> Icon) \<Rightarrow> string list \<Rightarrow> bool" where
  "iteration_order m order = (distinct order \<and> set order = dom m)"

definition postProcessIcons :: "lib \<Rightarrow> parser \<Rightarrow> string list \<Rightarrow> Icon list \<Rightarrow> Icon list" where
  "postProcessIcons L p order icons =
     (let tidied = tidy L p icons Map.empty;
          kept = filter_loop (filters (pfind p)) (range_map tidied order)
      in sort_Sort L Less_icons kept)"

section \<open>What the model asks of the parameters\<close>

text \<open>
  \<^verbatim>\<open>sort.Sort\<close> reorders the slice it is given, and leaves it in ascending order of
  \<^verbatim>\<open>Less\<close>: no element is less than one before it. It is not stable.
\<close>

definition sort_permutes :: "lib \<Rightarrow> bool" where
  "sort_permutes L = (\<forall>lt xs. mset (sort_Sort L lt xs) = mset xs)"

definition sort_sorts :: "lib \<Rightarrow> bool" where
  "sort_sorts L = (\<forall>xs. sorted_wrt (\<lambda>a b. \<not> Less_icons b a) (sort_Sort L Less_icons xs))"

text \<open>
  \<^verbatim>\<open>ResolveReference\<close> does not look at the base when the reference has a scheme.
\<close>

definition absolute_ignores_base :: "lib \<Rightarrow> bool" where
  "absolute_ignores_base L =
     (\<forall>b b' r. Scheme r \<noteq> [] \<longrightarrow> ResolveReference L b r = ResolveReference L b' r)"

text \<open>A filter that only accepts or rejects: it returns its argument or nil.\<close>

definition selective :: "Filter \<Rightarrow> bool" where
  "selective fn = (\<forall>i. fn i = None \<or> fn i = Some i)"

text \<open>A filter that does not empty the URL or the MIME type of an icon that has both.\<close>

definition keeps_required :: "Filter \<Rightarrow> bool" where
  "keeps_required fn =
     (\<forall>i i'. fn i = Some i' \<and> URL i \<noteq> [] \<and> MimeType i \<noteq> [] \<longrightarrow> URL i' \<noteq> [] \<and> MimeType i' \<noteq> [])"

text \<open>
  A fetch succeeds when the request can be built, the transport answers, and the status
  is below 300.
\<close>

definition build_request :: "lib \<Rightarrow> string \<Rightarrow> Request option" where
  "build_request L u =
     (case http_NewRequest L ''GET'' u of
        Inl err \<Rightarrow> None
      | Inr req \<Rightarrow> Some (req\<lparr>Header := AList.update ''User-Agent'' UserAgent (Header req)\<rparr>))"

definition fetch_succeeds :: "lib \<Rightarrow> Finder \<Rightarrow> string \<Rightarrow> bool" where
  "fetch_succeeds L f u =
     (case build_request L u of
        None \<Rightarrow> False
      | Some req \<Rightarrow> (case client f req of Inl err \<Rightarrow> False | Inr resp \<Rightarrow> StatusCode resp < 300))"

section \<open>A concrete library for evaluation\<close>

text \<open>
  To run the model on concrete inputs the parameters need values. The functions below
  agree with the Go libraries on the inputs the examples use; elsewhere they are
  placeholders, and no general statement depends on them.
\<close>

definition no_url :: url where
  "no_url = \<lparr>Scheme = [], Host = [], Path = [], RawQuery = [], Fragment = []\<rparr>"

text \<open>
  \<^verbatim>\<open>urls.Parse\<close> on the URLs of the examples. It stores the scheme in lower case, so
  \<^verbatim>\<open>HTTPS://b.com/x\<close> parses to the same value as \<^verbatim>\<open>https://b.com/x\<close>.
  \<^verbatim>\<open>%zz\<close>, an invalid escape, does not parse; it falls under the last case.
\<close>

definition fx_Parse :: "string \<Rightarrow> url option" where
  "fx_Parse s =
     (if s = [] then Some no_url
      else if s = ''/x'' then Some (no_url\<lparr>Path := ''/x''\<rparr>)
      else if s = ''https://a.com'' then Some (no_url\<lparr>Scheme := ''https'', Host := ''a.com''\<rparr>)
      else if s = ''https://a.com/x''
        then Some (no_url\<lparr>Scheme := ''https'', Host := ''a.com'', Path := ''/x''\<rparr>)
      else if s = ''https://b.com/x''
        then Some (no_url\<lparr>Scheme := ''https'', Host := ''b.com'', Path := ''/x''\<rparr>)
      else if s = ''HTTPS://b.com/x''
        then Some (no_url\<lparr>Scheme := ''https'', Host := ''b.com'', Path := ''/x''\<rparr>)
      else if s = ''https://a.com/i.png''
        then Some (no_url\<lparr>Scheme := ''https'', Host := ''a.com'', Path := ''/i.png''\<rparr>)
      else if s = ''https://a.com/favicon.ico''
        then Some (no_url\<lparr>Scheme := ''https'', Host := ''a.com'', Path := ''/favicon.ico''\<rparr>)
      else if s = ''https://a.com/apple-touch-icon.png''
        then Some (no_url\<lparr>Scheme := ''https'', Host := ''a.com'',
                     Path := ''/apple-touch-icon.png''\<rparr>)
      else None)"

text \<open>Reference resolution for an absolute reference and for an absolute-path reference.\<close>

definition fx_Resolve :: "url \<Rightarrow> url \<Rightarrow> url" where
  "fx_Resolve b r =
     (if Scheme r \<noteq> [] then r
      else b\<lparr>Path := Path r, RawQuery := RawQuery r, Fragment := Fragment r\<rparr>)"

definition fx_String :: "url \<Rightarrow> string" where
  "fx_String u =
     (if Scheme u = [] then [] else Scheme u @ '':'')
     @ (if Host u = [] then [] else ''//'' @ Host u)
     @ Path u
     @ (if RawQuery u = [] then [] else ''?'' @ RawQuery u)
     @ (if Fragment u = [] then [] else ''#'' @ Fragment u)"

text \<open>\<^verbatim>\<open>filepath.Ext\<close>: the suffix from the last dot of the last path element.\<close>

fun ext_scan :: "string \<Rightarrow> string \<Rightarrow> string" where
  "ext_scan [] acc = []"
| "ext_scan (c # cs) acc =
     (if c = CHR ''/'' then []
      else if c = CHR ''.'' then c # acc
      else ext_scan cs (c # acc))"

definition fx_Ext :: "string \<Rightarrow> string" where
  "fx_Ext path = ext_scan (rev path) []"

definition fx_TypeByExtension :: "string \<Rightarrow> string" where
  "fx_TypeByExtension ext =
     (if ext = ''.png'' then ''image/png''
      else if ext = ''.jpg'' then ''image/jpeg''
      else [])"

definition fx_fileExt :: "string \<Rightarrow> string" where
  "fx_fileExt u = (case fx_Parse u of None \<Rightarrow> [] | Some r \<Rightarrow> fx_Ext (Path r))"

text \<open>
  The SHA-256 digests of \<^verbatim>\<open>https://a.com/i.png-16x16\<close> and of the same with
  \<^verbatim>\<open>16x32\<close>, \<^verbatim>\<open>150x150\<close> and \<^verbatim>\<open>0x0\<close>.
\<close>

definition fx_Sum256 :: "8 word list \<Rightarrow> 8 word list" where
  "fx_Sum256 bs =
     (if bs = bytes_of ''https://a.com/i.png-16x16'' then
        [0x68, 0xb2, 0x2a, 0x3f, 0x4f, 0x7a, 0x4d, 0x37, 0x90, 0x41, 0xf3, 0xff, 0xd9, 0x94,
         0xcf, 0x23, 0x95, 0xec, 0x34, 0x58, 0xb7, 0xa3, 0x2e, 0xfe, 0xd3, 0xd2, 0x70, 0x1e,
         0x40, 0x7d, 0xad, 0x90]
      else if bs = bytes_of ''https://a.com/i.png-16x32'' then
        [0xf7, 0x58, 0x7e, 0x7b, 0xe2, 0xd0, 0x34, 0x91, 0x71, 0x3c, 0x38, 0xad, 0x10, 0x21,
         0x37, 0xd3, 0x35, 0x2e, 0xac, 0x87, 0x66, 0xd8, 0xad, 0x7f, 0x51, 0xc2, 0xd5, 0x0e,
         0xce, 0xc0, 0x09, 0x81]
      else if bs = bytes_of ''https://a.com/i.png-150x150'' then
        [0xd7, 0x17, 0x44, 0xbd, 0x0b, 0x68, 0x48, 0x46, 0x45, 0xf8, 0x68, 0xae, 0x21,
         0x56, 0xcf, 0xf6, 0xf1, 0x24, 0xfa, 0x5a, 0x19, 0x0e, 0x72, 0x51, 0x21, 0x20,
         0x18, 0x9c, 0x51, 0x5e, 0xb3, 0x08]
      else if bs = bytes_of ''https://a.com/i.png-0x0'' then
        [0x6f, 0x99, 0xd2, 0x85, 0x2d, 0x9d, 0x16, 0xc6, 0xca, 0x67, 0xba, 0x5b, 0xaf, 0xed,
         0xc2, 0x29, 0x6e, 0x98, 0x28, 0x46, 0xbe, 0xeb, 0xd4, 0x02, 0xbe, 0x12, 0xd7, 0x61,
         0xa4, 0x65, 0x7c, 0x0b]
      else [])"

text \<open>
  \<^verbatim>\<open>sort.Sort\<close> on a short slice (the examples have at most two elements) is an
  insertion sort: each element in turn is swapped towards the front while it is less than
  the one before it. \<open>sift\<close> holds the sorted prefix reversed, the last element first.
\<close>

fun sift :: "('a \<Rightarrow> 'a \<Rightarrow> bool) \<Rightarrow> 'a \<Rightarrow> 'a list \<Rightarrow> 'a list" where
  "sift lt x [] = [x]"
| "sift lt x (y # ys) = (if lt x y then y # sift lt x ys else x # y # ys)"

definition insertionSort :: "('a \<Rightarrow> 'a \<Rightarrow> bool) \<Rightarrow> 'a list \<Rightarrow> 'a list" where
  "insertionSort lt xs = rev (foldl (\<lambda>acc x. sift lt x acc) [] xs)"

definition fx_NewRequest :: "string \<Rightarrow> string \<Rightarrow> string + Request" where
  "fx_NewRequest m u =
     (case fx_Parse u of
        None \<Rightarrow> Inl ''invalid URL''
      | Some r \<Rightarrow> Inr \<lparr>Method = m, ReqURL = u, Header = []\<rparr>)"

definition fx_lib :: lib where
  "fx_lib =
     \<lparr>urls_Parse = fx_Parse, ResolveReference = fx_Resolve, url_String = fx_String,
      mime_TypeByExtension = fx_TypeByExtension, filepath_Ext = fx_Ext, fileExt = fx_fileExt,
      extractSizeFromURL = (\<lambda>u. None), sha256_Sum256 = fx_Sum256,
      sort_Sort = insertionSort, http_NewRequest = fx_NewRequest\<rparr>"

text \<open>A server that has \<^verbatim>\<open>/favicon.ico\<close> and nothing else.\<close>

definition fx_client :: "Request \<Rightarrow> string + Response" where
  "fx_client req =
     (if ReqURL req = ''https://a.com/favicon.ico''
      then Inr \<lparr>StatusCode = 200, Status = ''200 OK'', Body = ''ico''\<rparr>
      else Inr \<lparr>StatusCode = 404, Status = ''404 Not Found'', Body = []\<rparr>)"

definition fx_finder :: Finder where
  "fx_finder = New fx_client []"

text \<open>A fully described PNG icon at \<^verbatim>\<open>https://a.com/i.png\<close> of the given size.\<close>

definition png_icon :: "int \<Rightarrow> int \<Rightarrow> Icon" where
  "png_icon width height =
     \<lparr>URL = ''https://a.com/i.png'', MimeType = ''image/png'', FileExt = ''.png'',
      Width = width, Height = height, Hash = []\<rparr>"

definition hash_16x16 :: string where
  "hash_16x16 = ''68b22a3f4f7a4d379041f3ffd994cf2395ec3458b7a32efed3d2701e407dad90''"

definition hash_16x32 :: string where
  "hash_16x32 = ''f7587e7be2d03491713c38ad102137d3352eac8766d8ad7f51c2d50ecec00981''"

definition hash_150x150 :: string where
  "hash_150x150 = ''d71744bd0b68484645f868ae2156cff6f124fa5a190e72512120189c515eb308''"

definition hash_0x0 :: string where
  "hash_0x0 = ''6f99d2852d9d16c6ca67ba5bafedc2296e982846beebd402be12d761a4657c0b''"

text \<open>The same icon announced twice, the first time with another MIME type.\<close>

definition dup_input :: "Icon list" where
  "dup_input = [(png_icon 16 16)\<lparr>MimeType := ''image/x-icon''\<rparr>, png_icon 16 16]"

text \<open>Two icons for a comparison: equal widths, PNG against JPEG.\<close>

definition icon_b_png :: Icon where
  "icon_b_png =
     \<lparr>URL = ''https://a.com/b.png'', MimeType = ''image/png'', FileExt = ''.png'',
      Width = 16, Height = 16, Hash = []\<rparr>"

definition icon_a_jpeg :: Icon where
  "icon_a_jpeg =
     \<lparr>URL = ''https://a.com/a.jpg'', MimeType = ''image/jpeg'', FileExt = ''.jpg'',
      Width = 16, Height = 16, Hash = []\<rparr>"

text \<open>A filter a caller may pass to \<^verbatim>\<open>WithFilter\<close>: it returns the icon without its URL.\<close>

definition blank_URL_filter :: Filter where
  "blank_URL_filter = (\<lambda>icon. Some (icon\<lparr>URL := []\<rparr>))"

definition base_a_com :: url where
  "base_a_com = no_url\<lparr>Scheme := ''https'', Host := ''a.com''\<rparr>"

definition parser_a_com :: parser where
  "parser_a_com = (newParser fx_finder)\<lparr>baseURL := Some base_a_com\<rparr>"

definition parser_c_org :: parser where
  "parser_c_org =
     (newParser fx_finder)\<lparr>baseURL := Some (no_url\<lparr>Scheme := ''http'', Host := ''c.org''\<rparr>)\<rparr>"

definition world0 :: world where
  "world0 = \<lparr>sent = [], logged = []\<rparr>"

section \<open>Facts about formatting\<close>

lemma fmt_d_examples:
  "fmt_d 0 = ''0''" "fmt_d 16 = ''16''" "fmt_d 192 = ''192''" "fmt_d (- 5) = ''-5''"
  by (simp_all add: fmt_d_def fmt_nat.simps digit_char_def)

lemma fmt_x_example: "fmt_x [0x0a, 0xff, 0x10] = ''0aff10''"
  by (simp add: fmt_x_def digit_char_def)

lemma length_fmt_x: "length (fmt_x bs) = 2 * length bs"
  by (induction bs) (simp_all add: fmt_x_def)

section \<open>Facts about the order\<close>

text \<open>What \<open>Less_icons\<close> computes: the two ranks are equal, so only width and URL count.\<close>

lemma Less_icons_iff:
  "Less_icons a b \<longleftrightarrow> Width a > Width b \<or> (Width a = Width b \<and> URL a < URL b)"
  by (auto simp: Less_icons_def Let_def)

lemma Less_icons_total:
  assumes "Width a \<noteq> Width b \<or> URL a \<noteq> URL b"
  shows "Less_icons a b \<or> Less_icons b a"
proof (cases "Width a = Width b")
  case True
  with assms have "URL a < URL b \<or> URL b < URL a" by (simp add: neq_iff)
  with True show ?thesis by (simp add: Less_icons_iff)
next
  case False
  then have "Width a < Width b \<or> Width b < Width a" by (simp add: neq_iff)
  then show ?thesis by (auto simp add: Less_icons_iff)
qed

text \<open>
  Two arrangements of the same elements, both ascending, are equal when any two different
  elements are ordered one way or the other.
\<close>

lemma sorted_unique:
  assumes "mset xs = mset ys"
    and "sorted_wrt (\<lambda>a b. \<not> lt b a) xs" and "sorted_wrt (\<lambda>a b. \<not> lt b a) ys"
    and "\<forall>a\<in>set xs. \<forall>b\<in>set xs. a \<noteq> b \<longrightarrow> lt a b \<or> lt b a"
  shows "xs = ys"
  using assms
proof (induction xs arbitrary: ys)
  case Nil
  then show ?case by simp
next
  case (Cons x xs)
  from Cons.prems(1) obtain y ys' where ys: "ys = y # ys'"
    by (cases ys) auto
  have sets: "set (x # xs) = set ys"
    using Cons.prems(1) by (rule mset_eq_setD)
  have "x = y"
  proof (rule ccontr)
    assume ne: "x \<noteq> y"
    from sets ys ne have "x \<in> set ys'" by auto
    with Cons.prems(3) ys have 1: "\<not> lt x y" by auto
    from sets ys ne have "y \<in> set xs" by auto
    with Cons.prems(2) have 2: "\<not> lt y x" by auto
    from sets ys have "y \<in> set (x # xs)" by auto
    with Cons.prems(4) ne have "lt x y \<or> lt y x" by auto
    with 1 2 show False by blast
  qed
  moreover from this Cons.prems(1) ys have "mset xs = mset ys'" by simp
  moreover from Cons.prems(2) have "sorted_wrt (\<lambda>a b. \<not> lt b a) xs" by simp
  moreover from Cons.prems(3) ys have "sorted_wrt (\<lambda>a b. \<not> lt b a) ys'" by simp
  moreover from Cons.prems(4) have "\<forall>a\<in>set xs. \<forall>b\<in>set xs. a \<noteq> b \<longrightarrow> lt a b \<or> lt b a" by simp
  ultimately show ?case using Cons.IH ys by blast
qed

lemma length_filter_mset: "length (filter P xs) = size (filter_mset P (mset xs))"
  by (simp flip: mset_filter)

lemma length_filter_sort:
  "sort_permutes L \<Longrightarrow> length (filter P (sort_Sort L lt xs)) = length (filter P xs)"
  by (simp add: length_filter_mset sort_permutes_def)

lemma set_sort: "sort_permutes L \<Longrightarrow> set (sort_Sort L lt xs) = set xs"
  unfolding sort_permutes_def by (metis set_mset_mset)

section \<open>Facts about the first loop\<close>

lemma iconHash_Hash_update [simp]: "iconHash L (i\<lparr>Hash := h\<rparr>) = iconHash L i"
  by (simp add: iconHash_def)

lemma iconHash_cong:
  "URL a = URL b \<Longrightarrow> Width a = Width b \<Longrightarrow> Height a = Height b \<Longrightarrow> iconHash L a = iconHash L b"
  by (simp add: iconHash_def)

lemma normalize_Hash: "normalize_icon L p i = Some v \<Longrightarrow> Hash v = iconHash L v"
  by (auto simp: normalize_icon_def Let_def split: if_splits option.splits)

lemma normalize_nonempty: "normalize_icon L p i = Some v \<Longrightarrow> URL v \<noteq> [] \<and> MimeType v \<noteq> []"
  by (auto simp: normalize_icon_def Let_def split: if_splits option.splits)

lemma normalize_None_iff:
  "normalize_icon L p i = None \<longleftrightarrow>
     absURL L p (URL i) = [] \<or>
     (if MimeType i = [] then mimeTypeURL L (absURL L p (URL i)) else MimeType i) = []"
  by (auto simp: normalize_icon_def Let_def split: if_splits option.splits)

text \<open>A key that no icon of the list hashes to keeps its entry.\<close>

lemma tidy_untouched:
  "(\<forall>i\<in>set icons. \<forall>c. normalize_icon L p i = Some c \<longrightarrow> Hash c \<noteq> h) \<Longrightarrow>
   tidy L p icons m h = m h"
  by (induction icons arbitrary: m) (auto split: option.splits)

text \<open>Every entry was there before or is a normalized icon of the list under its hash.\<close>

lemma tidy_entry:
  "tidy L p icons m k = Some v \<Longrightarrow>
     m k = Some v \<or> (\<exists>i\<in>set icons. normalize_icon L p i = Some v \<and> Hash v = k)"
proof (induction icons arbitrary: m)
  case Nil
  then show ?case by simp
next
  case (Cons icon icons)
  show ?case
  proof (cases "normalize_icon L p icon")
    case None
    with Cons show ?thesis by auto
  next
    case (Some i)
    with Cons.prems have "tidy L p icons (m(Hash i \<mapsto> i)) k = Some v" by simp
    from Cons.IH [OF this] Some show ?thesis
      by (auto split: if_splits)
  qed
qed

lemma tidy_entry_empty:
  assumes "tidy L p icons Map.empty k = Some v"
  shows "Hash v = k \<and> iconHash L v = k \<and> URL v \<noteq> [] \<and> MimeType v \<noteq> []"
proof -
  from tidy_entry [OF assms] obtain i where "normalize_icon L p i = Some v" "Hash v = k"
    by auto
  then show ?thesis
    using normalize_Hash normalize_nonempty by metis
qed

text \<open>The icon at position \<open>j\<close> stays in the map when no later icon has its hash.\<close>

lemma tidy_last:
  assumes "j < length icons" and "normalize_icon L p (icons ! j) = Some b"
    and "\<forall>k. j < k \<and> k < length icons \<longrightarrow>
           (\<forall>c. normalize_icon L p (icons ! k) = Some c \<longrightarrow> Hash c \<noteq> Hash b)"
  shows "tidy L p icons m (Hash b) = Some b"
  using assms
proof (induction icons arbitrary: j m)
  case Nil
  then show ?case by simp
next
  case (Cons icon icons)
  show ?case
  proof (cases j)
    case 0
    have "\<forall>i\<in>set icons. \<forall>c. normalize_icon L p i = Some c \<longrightarrow> Hash c \<noteq> Hash b"
    proof (intro ballI allI impI)
      fix i c assume "i \<in> set icons" and c: "normalize_icon L p i = Some c"
      then obtain n where n: "n < length icons" "icons ! n = i"
        by (auto simp: in_set_conv_nth)
      with Cons.prems(3) 0 c show "Hash c \<noteq> Hash b"
        by (auto dest!: spec [where x = "Suc n"])
    qed
    then have "tidy L p icons (m(Hash b \<mapsto> b)) (Hash b) = Some b"
      by (simp add: tidy_untouched)
    with 0 Cons.prems(2) show ?thesis by simp
  next
    case (Suc j')
    have later: "\<forall>k. j' < k \<and> k < length icons \<longrightarrow>
        (\<forall>c. normalize_icon L p (icons ! k) = Some c \<longrightarrow> Hash c \<noteq> Hash b)"
    proof (intro allI impI)
      fix k c assume "j' < k \<and> k < length icons" and "normalize_icon L p (icons ! k) = Some c"
      with Cons.prems(3) Suc show "Hash c \<noteq> Hash b"
        by (auto dest!: spec [where x = "Suc k"])
    qed
    from Suc Cons.prems have j': "j' < length icons" "normalize_icon L p (icons ! j') = Some b"
      by auto
    have "tidy L p icons m' (Hash b) = Some b" for m'
      by (rule Cons.IH [OF j' later])
    then show ?thesis by (simp split: option.splits)
  qed
qed

section \<open>Facts about the second loop\<close>

lemma filter_loop_map_filter: "filter_loop fns xs = List.map_filter (apply_filters fns) xs"
  by (induction xs) (auto simp: List.map_filter_simps split: option.splits)

lemma set_filter_loop:
  "set (filter_loop fns xs) = {i'. \<exists>i\<in>set xs. apply_filters fns i = Some i'}"
  by (induction xs) (auto split: option.splits)

lemma apply_filters_selective:
  "\<forall>fn\<in>set fns. selective fn \<Longrightarrow> apply_filters fns i = None \<or> apply_filters fns i = Some i"
proof (induction fns)
  case Nil
  then show ?case by simp
next
  case (Cons fn fns)
  then have "fn i = None \<or> fn i = Some i" by (simp add: selective_def)
  with Cons show ?case by auto
qed

lemma filter_loop_selective:
  assumes "\<forall>fn\<in>set fns. selective fn"
  shows "filter_loop fns xs = filter (\<lambda>i. apply_filters fns i \<noteq> None) xs"
proof (induction xs)
  case Nil
  then show ?case by simp
next
  case (Cons x xs)
  from apply_filters_selective [OF assms, of x] Cons show ?case by auto
qed

lemma apply_filters_keeps:
  "\<forall>fn\<in>set fns. keeps_required fn \<Longrightarrow> apply_filters fns i = Some i' \<Longrightarrow>
   URL i \<noteq> [] \<and> MimeType i \<noteq> [] \<Longrightarrow> URL i' \<noteq> [] \<and> MimeType i' \<noteq> []"
proof (induction fns arbitrary: i)
  case Nil
  then show ?case by simp
next
  case (Cons fn fns)
  from Cons.prems(2) obtain j where j: "fn i = Some j" "apply_filters fns j = Some i'"
    by (auto split: option.splits)
  from Cons.prems(1) have "keeps_required fn" by simp
  with j(1) Cons.prems(3) have "URL j \<noteq> [] \<and> MimeType j \<noteq> []"
    unfolding keeps_required_def by blast
  with Cons.IH [of j] Cons.prems(1) j(2) show ?case by simp
qed

lemma apply_filters_reject:
  "fn \<in> set fns \<Longrightarrow> \<forall>i. fn i = None \<Longrightarrow> apply_filters fns i = None"
  by (induction fns arbitrary: i) (auto split: option.splits)

lemma filter_loop_reject:
  "fn \<in> set fns \<Longrightarrow> \<forall>i. fn i = None \<Longrightarrow> filter_loop fns xs = []"
  by (induction xs) (auto simp: apply_filters_reject)

lemma selective_builtin:
  "selective (MinWidth_filter n)" "selective (MaxWidth_filter n)"
  "selective (MinHeight_filter n)" "selective (MaxHeight_filter n)"
  "selective IgnoreNoSize_filter" "selective OnlyICO_filter" "selective OnlySquare_filter"
  by (simp_all add: selective_def MinWidth_filter_def MaxWidth_filter_def MinHeight_filter_def
      MaxHeight_filter_def IgnoreNoSize_filter_def OnlyICO_filter_def OnlySquare_filter_def)

lemma mime_loop_selective: "mime_loop ss i = None \<or> mime_loop ss i = Some i"
  by (induction ss) auto

lemma selective_OnlyMimeType: "selective (OnlyMimeType_filter ss)"
  by (simp add: selective_def OnlyMimeType_filter_def mime_loop_selective)

lemma selective_keeps: "selective fn \<Longrightarrow> keeps_required fn"
  unfolding selective_def keeps_required_def by (metis option.inject option.distinct(1))

lemma width_bounds_loop:
  "filter_loop [MinWidth_filter lo, MaxWidth_filter hi] cands
     = filter (\<lambda>i. lo \<le> Width i \<and> Width i \<le> hi) cands"
  "filter_loop [MaxWidth_filter hi, MinWidth_filter lo] cands
     = filter (\<lambda>i. lo \<le> Width i \<and> Width i \<le> hi) cands"
  by (induction cands) (simp_all add: MinWidth_filter_def MaxWidth_filter_def)

lemma set_range_map: "set (range_map m order) \<subseteq> ran m"
  by (auto simp: range_map_def List.map_filter_def ran_def)

lemma range_map_eq_map:
  "set order \<subseteq> dom m \<Longrightarrow> range_map m order = map (\<lambda>k. the (m k)) order"
  unfolding range_map_def List.map_filter_def
  by (induction order) auto

lemma mset_range_map:
  assumes "iteration_order m o1" "iteration_order m o2"
  shows "mset (range_map m o1) = mset (range_map m o2)"
proof -
  from assms have "distinct o1" "distinct o2" "set o1 = set o2"
    by (simp_all add: iteration_order_def)
  then have "mset o1 = mset o2"
    by (simp add: set_eq_iff_mset_eq_distinct)
  then have "image_mset (the \<circ> m) (filter_mset (\<lambda>x. m x \<noteq> None) (mset o1))
           = image_mset (the \<circ> m) (filter_mset (\<lambda>x. m x \<noteq> None) (mset o2))"
    by simp
  then have "mset (List.map_filter m o1) = mset (List.map_filter m o2)"
    unfolding List.map_filter_def mset_map mset_filter .
  then show ?thesis by (simp add: range_map_def)
qed

lemma distinct_filter_eq_length:
  "distinct xs \<Longrightarrow> x \<in> set xs \<Longrightarrow> length (filter (\<lambda>k. k = x) xs) = 1"
  by (induction xs) (auto simp: filter_empty_conv)

lemma postProcessIcons_unfold:
  "postProcessIcons L p order icons =
     sort_Sort L Less_icons
       (filter_loop (filters (pfind p)) (range_map (tidy L p icons Map.empty) order))"
  by (simp add: postProcessIcons_def)

section \<open>Facts about fetching\<close>

lemma fetchURL_isl: "isl (fst (fetchURL L f u w)) = (\<not> fetch_succeeds L f u)"
  by (auto simp: fetchURL_def fetch_succeeds_def build_request_def Let_def split: sum.splits)

lemma fetchURL_sent:
  "sent (snd (fetchURL L f u w))
     = sent w @ (case build_request L u of None \<Rightarrow> [] | Some r \<Rightarrow> [r])"
  by (auto simp: fetchURL_def build_request_def Let_def split: sum.splits)

lemma fetch_succeeds_build: "fetch_succeeds L f u \<Longrightarrow> build_request L u \<noteq> None"
  by (auto simp: fetch_succeeds_def split: option.splits)

lemma wellKnown_loop_result:
  "fst (wellKnown_loop L p root names icons w)
     = icons @ map Icon_of_URL (filter (fetch_succeeds L (pfind p)) (map (\<lambda>n. root @ n) names))
   \<and> sent (snd (wellKnown_loop L p root names icons w))
     = sent w @ List.map_filter (build_request L) (map (\<lambda>n. root @ n) names)"
proof (induction names arbitrary: icons w)
  case Nil
  then show ?case by (simp add: List.map_filter_simps)
next
  case (Cons name names)
  let ?u = "root @ name"
  obtain r w' where f: "fetchURL L (pfind p) ?u w = (r, w')"
    by (cases "fetchURL L (pfind p) ?u w")
  from f have isl: "isl r = (\<not> fetch_succeeds L (pfind p) ?u)"
    using fetchURL_isl [of L "pfind p" ?u w] by simp
  from f have snt: "sent w' = sent w @ (case build_request L ?u of None \<Rightarrow> [] | Some q \<Rightarrow> [q])"
    using fetchURL_sent [of L "pfind p" ?u w] by simp
  show ?case
  proof (cases r)
    case (Inl err)
    with f isl snt Cons.IH [of icons w'] show ?thesis
      by (simp add: List.map_filter_simps Let_def split: option.splits)
  next
    case (Inr body)
    with f isl snt
      Cons.IH [of "icons @ [Icon_of_URL ?u]" "w'\<lparr>logged := logged w' @ [''(well-known) '' @ ?u]\<rparr>"]
    show ?thesis
      by (auto simp add: List.map_filter_simps Let_def dest: fetch_succeeds_build
          split: option.splits)
  qed
qed

section \<open>The insertion sort meets what is asked of \<^verbatim>\<open>sort.Sort\<close>\<close>

lemma mset_sift: "mset (sift lt x ys) = add_mset x (mset ys)"
  by (induction ys) auto

lemma mset_foldl_sift: "mset (foldl (\<lambda>acc x. sift lt x acc) acc xs) = mset acc + mset xs"
  by (induction xs arbitrary: acc) (auto simp: mset_sift)

lemma mset_insertionSort: "mset (insertionSort lt xs) = mset xs"
  by (simp add: insertionSort_def mset_foldl_sift)

lemma set_sift: "set (sift lt x ys) = insert x (set ys)"
  by (induction ys) auto

lemma sorted_sift:
  assumes "sorted_wrt (\<lambda>a b. \<not> Less_icons a b) ys"
  shows "sorted_wrt (\<lambda>a b. \<not> Less_icons a b) (sift Less_icons x ys)"
  using assms
proof (induction ys)
  case Nil
  then show ?case by simp
next
  case (Cons y ys)
  show ?case
  proof (cases "Less_icons x y")
    case True
    then have "\<not> Less_icons y x" by (auto simp: Less_icons_iff)
    with True Cons show ?thesis by (auto simp: set_sift)
  next
    case False
    have "\<not> Less_icons x z" if "z \<in> set ys" for z
    proof -
      from Cons.prems that have "\<not> Less_icons y z" by simp
      with False show ?thesis by (auto simp: Less_icons_iff)
    qed
    with False Cons.prems show ?thesis by auto
  qed
qed

lemma sorted_foldl_sift:
  "sorted_wrt (\<lambda>a b. \<not> Less_icons a b) acc \<Longrightarrow>
   sorted_wrt (\<lambda>a b. \<not> Less_icons a b) (foldl (\<lambda>acc x. sift Less_icons x acc) acc xs)"
  by (induction xs arbitrary: acc) (auto simp: sorted_sift)

lemma sorted_insertionSort:
  "sorted_wrt (\<lambda>a b. \<not> Less_icons b a) (insertionSort Less_icons xs)"
proof -
  have "sorted_wrt (\<lambda>a b. \<not> Less_icons a b) (foldl (\<lambda>acc x. sift Less_icons x acc) [] xs)"
    by (rule sorted_foldl_sift) simp
  then show ?thesis
    by (simp add: insertionSort_def sorted_wrt_rev)
qed

lemma fx_sort_permutes: "sort_permutes fx_lib"
  by (simp add: sort_permutes_def fx_lib_def mset_insertionSort)

lemma fx_sort_sorts: "sort_sorts fx_lib"
  by (simp add: sort_sorts_def fx_lib_def sorted_insertionSort)

lemma insertionSort_none: "insertionSort lt [] = []"
  by (simp add: insertionSort_def)

lemma insertionSort_one: "insertionSort lt [x] = [x]"
  by (simp add: insertionSort_def)

lemma insertionSort_two:
  "insertionSort lt [x, y] = (if lt y x then [y, x] else [x, y])"
  by (simp add: insertionSort_def)

section \<open>The concrete library on the examples\<close>

lemma sort_fx [simp]: "sort_Sort fx_lib = insertionSort"
  by (simp add: fx_lib_def)

lemma extractSize_fx: "extractSizeFromURL fx_lib u = None"
  by (simp add: fx_lib_def)

lemma baseURL_newParser [simp]: "baseURL (newParser f) = None"
  by (simp add: newParser_def)

lemma pfind_newParser [simp]: "pfind (newParser f) = f"
  by (simp add: newParser_def)

lemma filters_fx_finder [simp]: "filters fx_finder = []"
  by (simp add: fx_finder_def New_def)

lemma fx_iconHash_16x16:
  "URL i = ''https://a.com/i.png'' \<Longrightarrow> Width i = 16 \<Longrightarrow> Height i = 16 \<Longrightarrow>
   iconHash fx_lib i = hash_16x16"
  by (simp add: iconHash_def fx_lib_def fx_Sum256_def fmt_d_def fmt_nat.simps digit_char_def
      bytes_of_def fmt_x_def hash_16x16_def)

lemma fx_iconHash_16x32:
  "URL i = ''https://a.com/i.png'' \<Longrightarrow> Width i = 16 \<Longrightarrow> Height i = 32 \<Longrightarrow>
   iconHash fx_lib i = hash_16x32"
  by (simp add: iconHash_def fx_lib_def fx_Sum256_def fmt_d_def fmt_nat.simps digit_char_def
      bytes_of_def fmt_x_def hash_16x32_def)

lemma fx_iconHash_0x0:
  "URL i = ''https://a.com/i.png'' \<Longrightarrow> Width i = 0 \<Longrightarrow> Height i = 0 \<Longrightarrow>
   iconHash fx_lib i = hash_0x0"
  by (simp add: iconHash_def fx_lib_def fx_Sum256_def fmt_d_def fmt_nat.simps digit_char_def
      bytes_of_def fmt_x_def hash_0x0_def)

lemma fx_normalize_16x16:
  "baseURL p = None \<Longrightarrow>
   normalize_icon fx_lib p (png_icon 16 16) = Some ((png_icon 16 16)\<lparr>Hash := hash_16x16\<rparr>)"
  by (simp add: normalize_icon_def absURL_def Let_def) (simp add: png_icon_def fx_iconHash_16x16)

lemma fx_normalize_16x32:
  "baseURL p = None \<Longrightarrow>
   normalize_icon fx_lib p (png_icon 16 32) = Some ((png_icon 16 32)\<lparr>Hash := hash_16x32\<rparr>)"
  by (simp add: normalize_icon_def absURL_def Let_def) (simp add: png_icon_def fx_iconHash_16x32)

lemma fx_normalize_0x0:
  "baseURL p = None \<Longrightarrow>
   normalize_icon fx_lib p (png_icon 0 0) = Some ((png_icon 0 0)\<lparr>Hash := hash_0x0\<rparr>)"
  by (simp add: normalize_icon_def absURL_def Let_def)
    (simp add: png_icon_def fx_iconHash_0x0 extractSize_fx)

lemma fx_normalize_dup:
  "baseURL p = None \<Longrightarrow>
   normalize_icon fx_lib p ((png_icon 16 16)\<lparr>MimeType := ''image/x-icon''\<rparr>)
     = Some ((png_icon 16 16)\<lparr>MimeType := ''image/x-icon'', Hash := hash_16x16\<rparr>)"
  by (simp add: normalize_icon_def absURL_def Let_def) (simp add: png_icon_def fx_iconHash_16x16)

lemma hashes_differ:
  "hash_16x16 \<noteq> hash_16x32" "hash_16x32 \<noteq> hash_16x16"
  "hash_16x16 \<noteq> hash_0x0" "hash_0x0 \<noteq> hash_16x16"
  by (simp_all add: hash_16x16_def hash_16x32_def hash_0x0_def)

lemma fx_iconHash_150x150:
  "URL i = ''https://a.com/i.png'' \<Longrightarrow> Width i = 150 \<Longrightarrow> Height i = 150 \<Longrightarrow>
   iconHash fx_lib i = hash_150x150"
  by (simp add: iconHash_def fx_lib_def fx_Sum256_def fmt_d_def fmt_nat.simps digit_char_def
      bytes_of_def fmt_x_def hash_150x150_def)

lemma fx_normalize_150x150:
  "baseURL p = None \<Longrightarrow>
   normalize_icon fx_lib p (png_icon 150 150) = Some ((png_icon 150 150)\<lparr>Hash := hash_150x150\<rparr>)"
  by (simp add: normalize_icon_def absURL_def Let_def) (simp add: png_icon_def fx_iconHash_150x150)

lemma hashes_differ_150:
  "hash_16x16 \<noteq> hash_150x150" "hash_150x150 \<noteq> hash_16x16"
  by (simp_all add: hash_16x16_def hash_150x150_def)

section \<open>The claims\<close>

subsection \<open>C1: the comparator\<close>

text \<open>
  Claim C1 says that \<^verbatim>\<open>ByWidth.Less\<close> orders two icons by width (larger first), then
  by the format priority of each side's own MIME type (PNG before JPEG before SVG before
  ICO before the rest), then by URL ascending. The source computes both ranks from
  \<^verbatim>\<open>a.MimeType\<close>, so the second key never decides (\<open>Less_icons_iff\<close>). At a PNG and
  a JPEG of equal width, the PNG with the larger URL, \<^verbatim>\<open>Less(0, 1)\<close> is false and
  \<^verbatim>\<open>Less(1, 0)\<close> is true: the JPEG sorts first, where the claimed order puts the PNG
  first.
\<close>

theorem ByWidth_Less_ignores_other_format:
  "ByWidth_Less [icon_b_png, icon_a_jpeg] 0 1 = Some False
   \<and> ByWidth_Less [icon_b_png, icon_a_jpeg] 1 0 = Some True
   \<and> spec_Less icon_b_png icon_a_jpeg
   \<and> \<not> spec_Less icon_a_jpeg icon_b_png"
  by (simp add: ByWidth_Less_def Less_icons_iff spec_Less_def formatRank_def
      icon_b_png_def icon_a_jpeg_def)

subsection \<open>C2: two runs on the same candidates\<close>

text \<open>
  Claim C2 says that two runs of \<^verbatim>\<open>postProcessIcons\<close> on the same raw candidates
  return the same sequence. The second loop visits the map in an order Go does not fix,
  and \<^verbatim>\<open>Less\<close> cannot tell apart two icons of equal width and URL. What holds: two runs
  return the same icons, each time in ascending order of \<^verbatim>\<open>Less\<close>, and the same
  sequence when no two different icons of the result agree in both width and URL.
\<close>

theorem postProcessIcons_same_up_to_ties:
  assumes "sort_permutes L" and "sort_sorts L"
    and "iteration_order (tidy L p icons Map.empty) o1"
    and "iteration_order (tidy L p icons Map.empty) o2"
  shows "mset (postProcessIcons L p o1 icons) = mset (postProcessIcons L p o2 icons)
    \<and> sorted_wrt (\<lambda>a b. \<not> Less_icons b a) (postProcessIcons L p o1 icons)
    \<and> ((\<forall>a\<in>set (postProcessIcons L p o1 icons). \<forall>b\<in>set (postProcessIcons L p o1 icons).
           a \<noteq> b \<longrightarrow> Width a \<noteq> Width b \<or> URL a \<noteq> URL b)
        \<longrightarrow> postProcessIcons L p o1 icons = postProcessIcons L p o2 icons)"
proof -
  let ?m = "tidy L p icons Map.empty"
  let ?r1 = "postProcessIcons L p o1 icons" and ?r2 = "postProcessIcons L p o2 icons"
  have "mset (range_map ?m o1) = mset (range_map ?m o2)"
    using assms(3,4) by (rule mset_range_map)
  then have "mset (filter_loop (filters (pfind p)) (range_map ?m o1))
           = mset (filter_loop (filters (pfind p)) (range_map ?m o2))"
    unfolding filter_loop_map_filter List.map_filter_def mset_map mset_filter by simp
  with assms(1) have same: "mset ?r1 = mset ?r2"
    by (simp add: postProcessIcons_unfold sort_permutes_def)
  from assms(2) have s1: "sorted_wrt (\<lambda>a b. \<not> Less_icons b a) ?r1"
    and s2: "sorted_wrt (\<lambda>a b. \<not> Less_icons b a) ?r2"
    by (simp_all add: postProcessIcons_unfold sort_sorts_def)
  have "?r1 = ?r2"
    if "\<forall>a\<in>set ?r1. \<forall>b\<in>set ?r1. a \<noteq> b \<longrightarrow> Width a \<noteq> Width b \<or> URL a \<noteq> URL b"
  proof (rule sorted_unique [OF same s1 s2])
    show "\<forall>a\<in>set ?r1. \<forall>b\<in>set ?r1. a \<noteq> b \<longrightarrow> Less_icons a b \<or> Less_icons b a"
    proof (intro ballI impI)
      fix a b assume "a \<in> set ?r1" "b \<in> set ?r1" "a \<noteq> b"
      with that have "Width a \<noteq> Width b \<or> URL a \<noteq> URL b" by blast
      then show "Less_icons a b \<or> Less_icons b a" by (rule Less_icons_total)
    qed
  qed
  with same s1 show ?thesis by blast
qed

text \<open>
  Two icons of widths 16 and 0: visited in either order, the result is the same sequence,
  the wider icon first.
\<close>

theorem postProcessIcons_same_up_to_ties_witness:
  "postProcessIcons fx_lib (newParser fx_finder) [hash_16x16, hash_0x0]
       [png_icon 0 0, png_icon 16 16]
     = postProcessIcons fx_lib (newParser fx_finder) [hash_0x0, hash_16x16]
       [png_icon 0 0, png_icon 16 16]
   \<and> postProcessIcons fx_lib (newParser fx_finder) [hash_0x0, hash_16x16]
       [png_icon 0 0, png_icon 16 16]
     = [(png_icon 16 16)\<lparr>Hash := hash_16x16\<rparr>, (png_icon 0 0)\<lparr>Hash := hash_0x0\<rparr>]"
proof -
  let ?p = "newParser fx_finder"
  let ?in = "[png_icon 0 0, png_icon 16 16]"
  let ?m = "tidy fx_lib ?p ?in Map.empty"
  have o1: "iteration_order ?m [hash_16x16, hash_0x0]"
    by (auto simp add: iteration_order_def fx_normalize_16x16 fx_normalize_0x0 hashes_differ)
  have o2: "iteration_order ?m [hash_0x0, hash_16x16]"
    by (auto simp add: iteration_order_def fx_normalize_16x16 fx_normalize_0x0 hashes_differ)
  have r1: "postProcessIcons fx_lib ?p [hash_16x16, hash_0x0] ?in
     = [(png_icon 16 16)\<lparr>Hash := hash_16x16\<rparr>, (png_icon 0 0)\<lparr>Hash := hash_0x0\<rparr>]"
    by (simp add: postProcessIcons_def fx_normalize_16x16 fx_normalize_0x0
        hashes_differ range_map_def List.map_filter_simps insertionSort_two Less_icons_iff)
      (simp add: png_icon_def)
  have r2: "postProcessIcons fx_lib ?p [hash_0x0, hash_16x16] ?in
     = [(png_icon 16 16)\<lparr>Hash := hash_16x16\<rparr>, (png_icon 0 0)\<lparr>Hash := hash_0x0\<rparr>]"
    by (simp add: postProcessIcons_def fx_normalize_16x16 fx_normalize_0x0
        hashes_differ range_map_def List.map_filter_simps insertionSort_two Less_icons_iff)
      (simp add: png_icon_def)
  have ties: "\<forall>a\<in>set (postProcessIcons fx_lib ?p [hash_16x16, hash_0x0] ?in).
      \<forall>b\<in>set (postProcessIcons fx_lib ?p [hash_16x16, hash_0x0] ?in).
        a \<noteq> b \<longrightarrow> Width a \<noteq> Width b \<or> URL a \<noteq> URL b"
    unfolding r1 by (simp add: png_icon_def)
  from postProcessIcons_same_up_to_ties [OF fx_sort_permutes fx_sort_sorts o1 o2] ties r2
  show ?thesis by simp
qed

text \<open>
  One URL announced at 16x16 and at 16x32: two map entries that \<^verbatim>\<open>Less\<close> does not
  order. Both visiting orders are orders of the map, and the two runs return the two icons
  in different order.
\<close>

theorem postProcessIcons_order_counterexample:
  "iteration_order (tidy fx_lib (newParser fx_finder) [png_icon 16 16, png_icon 16 32] Map.empty)
      [hash_16x16, hash_16x32]
   \<and> iteration_order (tidy fx_lib (newParser fx_finder) [png_icon 16 16, png_icon 16 32] Map.empty)
      [hash_16x32, hash_16x16]
   \<and> postProcessIcons fx_lib (newParser fx_finder) [hash_16x16, hash_16x32]
        [png_icon 16 16, png_icon 16 32]
     \<noteq> postProcessIcons fx_lib (newParser fx_finder) [hash_16x32, hash_16x16]
        [png_icon 16 16, png_icon 16 32]"
  by (simp add: iteration_order_def postProcessIcons_def fx_normalize_16x16 fx_normalize_16x32
      hashes_differ range_map_def List.map_filter_simps insertionSort_two Less_icons_iff)
    (auto simp: png_icon_def)

subsection \<open>C3: resolving a URL\<close>

text \<open>
  Claim C3 says that \<^verbatim>\<open>absURL\<close> returns the empty string for the empty string; the
  input unchanged when the parser has no base URL; the empty string when there is a base and
  the input does not parse; otherwise the base's \<^verbatim>\<open>ResolveReference\<close> of the parsed
  input; and that an absolute input therefore comes back as it is, whatever the base. The
  four cases hold. In the last one the result is the resolved reference printed again by
  \<^verbatim>\<open>URL.String\<close>, so an input comes back as it is exactly when parsing, resolving and
  printing reproduce it; and an absolute input gives the same result against any two bases,
  since \<^verbatim>\<open>ResolveReference\<close> does not look at the base of a reference with a scheme.
\<close>

theorem absURL_cases:
  "(u = [] \<longrightarrow> absURL L p u = [])
   \<and> (baseURL p = None \<longrightarrow> absURL L p u = u)
   \<and> (u \<noteq> [] \<and> baseURL p = Some b \<and> urls_Parse L u = None \<longrightarrow> absURL L p u = [])
   \<and> (u \<noteq> [] \<and> baseURL p = Some b \<and> urls_Parse L u = Some r \<longrightarrow>
        absURL L p u = url_String L (ResolveReference L b r)
        \<and> (absURL L p u = u \<longleftrightarrow> url_String L (ResolveReference L b r) = u))
   \<and> (absolute_ignores_base L \<and> baseURL p = Some b \<and> baseURL p' = Some b'
        \<and> urls_Parse L u = Some r \<and> Scheme r \<noteq> [] \<longrightarrow>
        absURL L p u = absURL L p' u)"
proof -
  have "absURL L p u = absURL L p' u"
    if "absolute_ignores_base L" and "baseURL p = Some b" and "baseURL p' = Some b'"
      and "urls_Parse L u = Some r" and "Scheme r \<noteq> []"
  proof -
    from that(1,5) have "ResolveReference L b r = ResolveReference L b' r"
      unfolding absolute_ignores_base_def by blast
    with that(2,3,4) show ?thesis
      by (simp add: absURL_def)
  qed
  then show ?thesis
    by (simp add: absURL_def)
qed

text \<open>
  The four cases against the base \<^verbatim>\<open>https://a.com\<close>, and the absolute input
  \<^verbatim>\<open>https://b.com/x\<close> against that base and against \<^verbatim>\<open>http://c.org\<close>.
\<close>

theorem absURL_cases_witness:
  "absURL fx_lib parser_a_com [] = []
   \<and> absURL fx_lib (newParser fx_finder) ''/x'' = ''/x''
   \<and> absURL fx_lib parser_a_com ''%zz'' = []
   \<and> absURL fx_lib parser_a_com ''/x'' = ''https://a.com/x''
   \<and> absURL fx_lib parser_a_com ''https://b.com/x'' = ''https://b.com/x''
   \<and> absURL fx_lib parser_c_org ''https://b.com/x'' = absURL fx_lib parser_a_com ''https://b.com/x''"
proof -
  let ?r = "no_url\<lparr>Scheme := ''https'', Host := ''b.com'', Path := ''/x''\<rparr>"
  let ?c = "no_url\<lparr>Scheme := ''http'', Host := ''c.org''\<rparr>"
  have b: "baseURL parser_a_com = Some base_a_com"
    by (simp add: parser_a_com_def)
  have c: "baseURL parser_c_org = Some ?c"
    by (simp add: parser_c_org_def)
  have bad: "urls_Parse fx_lib ''%zz'' = None"
    by (simp add: fx_lib_def fx_Parse_def)
  have rel: "urls_Parse fx_lib ''/x'' = Some (no_url\<lparr>Path := ''/x''\<rparr>)"
    by (simp add: fx_lib_def fx_Parse_def)
  have ab: "urls_Parse fx_lib ''https://b.com/x'' = Some ?r"
    by (simp add: fx_lib_def fx_Parse_def)
  have sch: "Scheme ?r \<noteq> []"
    by (simp add: no_url_def)
  have ign: "absolute_ignores_base fx_lib"
    by (simp add: absolute_ignores_base_def fx_lib_def fx_Resolve_def)
  have res: "url_String fx_lib (ResolveReference fx_lib base_a_com (no_url\<lparr>Path := ''/x''\<rparr>))
      = ''https://a.com/x''"
    "url_String fx_lib (ResolveReference fx_lib base_a_com ?r) = ''https://b.com/x''"
    by (simp_all add: fx_lib_def fx_Resolve_def fx_String_def base_a_com_def no_url_def)
  have any_base: "absURL fx_lib parser_c_org ''https://b.com/x''
      = absURL fx_lib parser_a_com ''https://b.com/x''"
    using absURL_cases [of "''https://b.com/x''" fx_lib parser_c_org ?c ?r parser_a_com base_a_com]
      ign c b ab sch
    by blast
  have empty: "absURL fx_lib parser_a_com [] = []"
    using absURL_cases [of "[]" fx_lib parser_a_com base_a_com ?r parser_a_com base_a_com]
    by blast
  have no_base: "absURL fx_lib (newParser fx_finder) ''/x'' = ''/x''"
    using absURL_cases [of "''/x''" fx_lib "newParser fx_finder" base_a_com ?r parser_a_com
        base_a_com]
    by simp
  have no_parse: "absURL fx_lib parser_a_com ''%zz'' = []"
    using absURL_cases [of "''%zz''" fx_lib parser_a_com base_a_com ?r parser_a_com base_a_com]
      b bad
    by simp
  have relative: "absURL fx_lib parser_a_com ''/x'' = ''https://a.com/x''"
    using absURL_cases [of "''/x''" fx_lib parser_a_com base_a_com "no_url\<lparr>Path := ''/x''\<rparr>"
        parser_a_com base_a_com]
      b rel res(1)
    by simp
  have absolute: "absURL fx_lib parser_a_com ''https://b.com/x'' = ''https://b.com/x''"
    using absURL_cases [of "''https://b.com/x''" fx_lib parser_a_com base_a_com ?r parser_a_com
        base_a_com]
      b ab res(2)
    by simp
  from empty no_base no_parse relative absolute any_base show ?thesis
    by (intro conjI)
qed

text \<open>
  The absolute input \<^verbatim>\<open>HTTPS://b.com/x\<close>: it parses, with the scheme in lower case,
  and comes back as \<^verbatim>\<open>https://b.com/x\<close>, not as it went in.
\<close>

theorem absURL_absolute_not_as_is_counterexample:
  "urls_Parse fx_lib ''HTTPS://b.com/x''
     = Some (no_url\<lparr>Scheme := ''https'', Host := ''b.com'', Path := ''/x''\<rparr>)
   \<and> absURL fx_lib parser_a_com ''HTTPS://b.com/x'' = ''https://b.com/x''
   \<and> absURL fx_lib parser_a_com ''HTTPS://b.com/x'' \<noteq> ''HTTPS://b.com/x''"
  by (simp add: absURL_def parser_a_com_def base_a_com_def fx_lib_def fx_Parse_def
      fx_Resolve_def fx_String_def no_url_def)

subsection \<open>C4: one entry per identity\<close>

text \<open>
  Claim C4 says that two candidates with equal URL, width and height after normalization
  give exactly one entry of the output, the last of them in input order. The filters run
  after the map is built and may reject that entry. What holds: the two candidates have
  one key; the map holds under it the last candidate observed with that key; and with
  filters that only accept or reject, the output has one entry of that URL, width and
  height when the filters accept the retained candidate, and none when they reject it.
\<close>

theorem dedup_keeps_last:
  assumes "sort_permutes L"
    and "iteration_order (tidy L p icons Map.empty) order"
    and "\<forall>fn\<in>set (filters (pfind p)). selective fn"
    and "i < j" and "j < length icons"
    and "normalize_icon L p (icons ! i) = Some a" and "normalize_icon L p (icons ! j) = Some b"
    and "URL a = URL b \<and> Width a = Width b \<and> Height a = Height b"
    and "\<forall>k. j < k \<and> k < length icons \<longrightarrow>
           (\<forall>c. normalize_icon L p (icons ! k) = Some c \<longrightarrow> Hash c \<noteq> Hash b)"
  shows "Hash a = Hash b
    \<and> tidy L p icons Map.empty (Hash a) = Some b
    \<and> length (filter (\<lambda>v. URL v = URL b \<and> Width v = Width b \<and> Height v = Height b)
               (postProcessIcons L p order icons))
        = (if apply_filters (filters (pfind p)) b = None then 0 else 1)"
proof -
  let ?m = "tidy L p icons Map.empty"
  let ?fs = "filters (pfind p)"
  let ?P = "\<lambda>v. URL v = URL b \<and> Width v = Width b \<and> Height v = Height b"
  let ?Q = "\<lambda>v. apply_filters ?fs v \<noteq> None"
  let ?f = "\<lambda>k. the (?m k)"
  have key: "Hash a = Hash b"
    using assms(6,7,8) by (metis normalize_Hash iconHash_cong)
  have mb: "?m (Hash b) = Some b"
    using assms(5,7,9) by (rule tidy_last)
  from assms(2) have dist: "distinct order" and dom: "set order = dom ?m"
    by (simp_all add: iteration_order_def)
  from mb dom have inb: "Hash b \<in> set order" by auto
  have vals: "range_map ?m order = map ?f order"
    using dom by (simp add: range_map_eq_map)
  have fk: "(?Q (?f k) \<and> ?P (?f k)) = (k = Hash b \<and> ?Q b)" if "k \<in> set order" for k
  proof -
    from that dom obtain v where v: "?m k = Some v" by auto
    then have hv: "Hash v = k" "iconHash L v = k"
      using tidy_entry_empty by blast+
    have hb: "Hash b = iconHash L b"
      using assms(7) by (rule normalize_Hash)
    show ?thesis
    proof (cases "k = Hash b")
      case True
      with v mb show ?thesis by simp
    next
      case False
      have "\<not> ?P v"
      proof
        assume "?P v"
        then have "iconHash L v = iconHash L b" by (intro iconHash_cong) simp_all
        have "k = iconHash L v" by (rule hv(2) [symmetric])
        also have "\<dots> = iconHash L b" by fact
        also have "\<dots> = Hash b" by (rule hb [symmetric])
        finally show False using False by contradiction
      qed
      with v False show ?thesis by auto
    qed
  qed
  have "length (filter ?P (postProcessIcons L p order icons))
      = length (filter ?P (filter_loop ?fs (range_map ?m order)))"
    using assms(1) by (simp add: postProcessIcons_unfold length_filter_sort)
  also have "\<dots> = length (filter ?P (filter ?Q (map ?f order)))"
    using assms(3) by (simp add: filter_loop_selective vals)
  also have "\<dots> = length (filter (\<lambda>k. ?Q (?f k) \<and> ?P (?f k)) order)"
    by (simp add: filter_map comp_def)
  also have "filter (\<lambda>k. ?Q (?f k) \<and> ?P (?f k)) order = filter (\<lambda>k. k = Hash b \<and> ?Q b) order"
    by (rule filter_cong) (rule refl, rule fk)
  also have "length \<dots> = (if apply_filters ?fs b = None then 0 else 1)"
    using distinct_filter_eq_length [OF dist inb] by simp
  finally show ?thesis using key mb by simp
qed

text \<open>
  The same 16x16 icon announced as an ICO and then as a PNG, no filters: the map keeps the
  PNG, the later one, and the output has one entry of that identity.
\<close>

theorem dedup_keeps_last_witness:
  "tidy fx_lib (newParser fx_finder) dup_input Map.empty hash_16x16
     = Some ((png_icon 16 16)\<lparr>Hash := hash_16x16\<rparr>)
   \<and> length (filter (\<lambda>v. URL v = ''https://a.com/i.png'' \<and> Width v = 16 \<and> Height v = 16)
        (postProcessIcons fx_lib (newParser fx_finder) [hash_16x16] dup_input)) = 1"
proof -
  let ?p = "newParser fx_finder"
  let ?a = "(png_icon 16 16)\<lparr>MimeType := ''image/x-icon'', Hash := hash_16x16\<rparr>"
  let ?b = "(png_icon 16 16)\<lparr>Hash := hash_16x16\<rparr>"
  have ord: "iteration_order (tidy fx_lib ?p dup_input Map.empty) [hash_16x16]"
    by (simp add: iteration_order_def dup_input_def fx_normalize_16x16 fx_normalize_dup)
  have sel: "\<forall>fn\<in>set (filters (pfind ?p)). selective fn" by simp
  have ij: "(0::nat) < 1" "1 < length dup_input" by (simp_all add: dup_input_def)
  have na: "normalize_icon fx_lib ?p (dup_input ! 0) = Some ?a"
    by (simp add: dup_input_def fx_normalize_dup)
  have nb: "normalize_icon fx_lib ?p (dup_input ! 1) = Some ?b"
    by (simp add: dup_input_def fx_normalize_16x16)
  have same: "URL ?a = URL ?b \<and> Width ?a = Width ?b \<and> Height ?a = Height ?b"
    by (simp add: png_icon_def)
  have last: "\<forall>k. 1 < k \<and> k < length dup_input \<longrightarrow>
      (\<forall>c. normalize_icon fx_lib ?p (dup_input ! k) = Some c \<longrightarrow> Hash c \<noteq> Hash ?b)"
    by (auto simp: dup_input_def)
  from dedup_keeps_last [OF fx_sort_permutes ord sel ij na nb same last] show ?thesis
    by (simp add: png_icon_def)
qed

text \<open>
  The same two candidates with \<^verbatim>\<open>MinWidth(100)\<close> configured: both normalize to the
  identity \<^verbatim>\<open>(https://a.com/i.png, 16, 16)\<close>, and the output has no entry at all.
\<close>

theorem dedup_exactly_one_counterexample:
  "map (\<lambda>i. map_option (\<lambda>v. (URL v, Width v, Height v))
            (normalize_icon fx_lib (newParser (New fx_client [MinWidth 100])) i)) dup_input
     = [Some (''https://a.com/i.png'', 16, 16), Some (''https://a.com/i.png'', 16, 16)]
   \<and> postProcessIcons fx_lib (newParser (New fx_client [MinWidth 100])) [hash_16x16] dup_input = []"
  by (simp add: dup_input_def fx_normalize_16x16 fx_normalize_dup postProcessIcons_def
      range_map_def List.map_filter_simps New_def MinWidth_def WithFilter_def MinWidth_filter_def
      insertionSort_none)
    (simp add: png_icon_def)

subsection \<open>C5: URL and MIME type are never empty\<close>

text \<open>
  Claim C5 says that every icon of the output has a URL and a MIME type, and that an icon
  without one of them after resolution and inference is dropped before the filters. A
  filter may return a changed icon, so the first half needs the filters to keep the two
  fields. What holds: an icon is dropped exactly when its resolved URL or its given or
  inferred MIME type is empty; every icon the filter loop receives has both; and every icon
  of the output has both when no filter empties them.
\<close>

theorem required_fields_before_filters:
  "(normalize_icon L p i = None \<longleftrightarrow>
      absURL L p (URL i) = [] \<or>
      (if MimeType i = [] then mimeTypeURL L (absURL L p (URL i)) else MimeType i) = [])
   \<and> (\<forall>c\<in>set (range_map (tidy L p icons Map.empty) order). URL c \<noteq> [] \<and> MimeType c \<noteq> [])
   \<and> (sort_permutes L \<and> (\<forall>fn\<in>set (filters (pfind p)). keeps_required fn) \<longrightarrow>
        (\<forall>c\<in>set (postProcessIcons L p order icons). URL c \<noteq> [] \<and> MimeType c \<noteq> []))"
proof -
  let ?m = "tidy L p icons Map.empty"
  have reach: "URL c \<noteq> [] \<and> MimeType c \<noteq> []" if "c \<in> set (range_map ?m order)" for c
  proof -
    from that set_range_map have "c \<in> ran ?m" by blast
    then obtain k where "?m k = Some c" by (auto simp: ran_def)
    then show ?thesis using tidy_entry_empty by blast
  qed
  have out: "URL c \<noteq> [] \<and> MimeType c \<noteq> []"
    if "sort_permutes L" and "\<forall>fn\<in>set (filters (pfind p)). keeps_required fn"
      and "c \<in> set (postProcessIcons L p order icons)" for c
  proof -
    from that(1,3) have "c \<in> set (filter_loop (filters (pfind p)) (range_map ?m order))"
      by (simp add: postProcessIcons_unfold set_sort)
    then obtain c0 where "c0 \<in> set (range_map ?m order)"
      "apply_filters (filters (pfind p)) c0 = Some c"
      by (auto simp: set_filter_loop)
    with reach that(2) show ?thesis
      using apply_filters_keeps by blast
  qed
  show ?thesis
    using normalize_None_iff [of L p i] reach out by blast
qed

text \<open>
  A candidate without URL and a PNG, with \<^verbatim>\<open>MinWidth(10)\<close> and \<^verbatim>\<open>OnlySquare\<close>: the first
  is dropped, the second is the output.
\<close>

theorem required_fields_before_filters_witness:
  "normalize_icon fx_lib (newParser (New fx_client [MinWidth 10, OnlySquare])) (Icon_of_URL []) = None
   \<and> list_all (\<lambda>c. URL c \<noteq> [] \<and> MimeType c \<noteq> [])
       (range_map (tidy fx_lib (newParser (New fx_client [MinWidth 10, OnlySquare]))
           [Icon_of_URL [], png_icon 16 16] Map.empty) [hash_16x16])
   \<and> list_all (\<lambda>c. URL c \<noteq> [] \<and> MimeType c \<noteq> [])
       (postProcessIcons fx_lib (newParser (New fx_client [MinWidth 10, OnlySquare]))
          [hash_16x16] [Icon_of_URL [], png_icon 16 16])
   \<and> postProcessIcons fx_lib (newParser (New fx_client [MinWidth 10, OnlySquare]))
          [hash_16x16] [Icon_of_URL [], png_icon 16 16] = [(png_icon 16 16)\<lparr>Hash := hash_16x16\<rparr>]"
proof -
  let ?p = "newParser (New fx_client [MinWidth 10, OnlySquare])"
  have keeps: "\<forall>fn\<in>set (filters (pfind ?p)). keeps_required fn"
    by (simp add: New_def MinWidth_def OnlySquare_def WithFilter_def selective_keeps
        selective_builtin)
  have empty: "absURL fx_lib ?p (URL (Icon_of_URL [])) = []"
    by (simp add: absURL_def Icon_of_URL_def)
  have out: "postProcessIcons fx_lib ?p [hash_16x16] [Icon_of_URL [], png_icon 16 16]
      = [(png_icon 16 16)\<lparr>Hash := hash_16x16\<rparr>]"
    using required_fields_before_filters [of fx_lib ?p "Icon_of_URL []"] empty
    by (simp add: fx_normalize_16x16 postProcessIcons_def range_map_def List.map_filter_simps
        New_def MinWidth_def OnlySquare_def WithFilter_def MinWidth_filter_def OnlySquare_filter_def
        IsSquare_def insertionSort_one)
      (simp add: png_icon_def)
  from required_fields_before_filters
      [of fx_lib ?p "Icon_of_URL []" "[Icon_of_URL [], png_icon 16 16]" "[hash_16x16]"]
    empty keeps fx_sort_permutes out
  show ?thesis
    by (simp add: list_all_iff)
qed

text \<open>
  A filter passed to \<^verbatim>\<open>WithFilter\<close> that returns the icon without its URL: the one icon
  of the output has an empty URL.
\<close>

theorem required_fields_counterexample:
  "map URL (postProcessIcons fx_lib (newParser (New fx_client [WithFilter [blank_URL_filter]]))
      [hash_16x16] [png_icon 16 16]) = [[]]"
  by (simp add: fx_normalize_16x16 postProcessIcons_def
      range_map_def List.map_filter_simps New_def WithFilter_def blank_URL_filter_def
      insertionSort_one)

subsection \<open>C6: width bounds in either order\<close>

text \<open>
  Claim C6: a Finder built with \<^verbatim>\<open>MinWidth(100)\<close> and \<^verbatim>\<open>MaxWidth(200)\<close>, added in
  either order, keeps exactly the candidates whose width is in the interval from 100 to
  200, both included: so does its filter loop on any list of candidates, and so does the
  whole of \<^verbatim>\<open>postProcessIcons\<close> on the entries of the map.
\<close>

theorem width_bounds_either_order:
  "filter_loop (filters (New c0 [MinWidth 100, MaxWidth 200])) cands
      = filter (\<lambda>i. 100 \<le> Width i \<and> Width i \<le> 200) cands
   \<and> filter_loop (filters (New c0 [MaxWidth 200, MinWidth 100])) cands
      = filter (\<lambda>i. 100 \<le> Width i \<and> Width i \<le> 200) cands
   \<and> (sort_permutes L
        \<and> (pfind p = New c0 [MinWidth 100, MaxWidth 200]
           \<or> pfind p = New c0 [MaxWidth 200, MinWidth 100]) \<longrightarrow>
        mset (postProcessIcons L p order icons)
          = filter_mset (\<lambda>i. 100 \<le> Width i \<and> Width i \<le> 200)
              (mset (range_map (tidy L p icons Map.empty) order)))"
proof -
  have f1: "filters (New c0 [MinWidth 100, MaxWidth 200]) = [MinWidth_filter 100, MaxWidth_filter 200]"
    by (simp add: New_def MinWidth_def MaxWidth_def WithFilter_def)
  have f2: "filters (New c0 [MaxWidth 200, MinWidth 100]) = [MaxWidth_filter 200, MinWidth_filter 100]"
    by (simp add: New_def MinWidth_def MaxWidth_def WithFilter_def)
  have loop: "filter_loop (filters (New c0 [MinWidth 100, MaxWidth 200])) xs
      = filter (\<lambda>i. 100 \<le> Width i \<and> Width i \<le> 200) xs"
    "filter_loop (filters (New c0 [MaxWidth 200, MinWidth 100])) xs
      = filter (\<lambda>i. 100 \<le> Width i \<and> Width i \<le> 200) xs" for xs
    unfolding f1 f2 by (rule width_bounds_loop)+
  have "mset (postProcessIcons L p order icons)
          = filter_mset (\<lambda>i. 100 \<le> Width i \<and> Width i \<le> 200)
              (mset (range_map (tidy L p icons Map.empty) order))"
    if "sort_permutes L"
      and "pfind p = New c0 [MinWidth 100, MaxWidth 200]
           \<or> pfind p = New c0 [MaxWidth 200, MinWidth 100]"
  proof -
    from that(2) have "filter_loop (filters (pfind p)) (range_map (tidy L p icons Map.empty) order)
        = filter (\<lambda>i. 100 \<le> Width i \<and> Width i \<le> 200)
            (range_map (tidy L p icons Map.empty) order)"
      using loop by auto
    with that(1) show ?thesis
      by (simp add: postProcessIcons_unfold sort_permutes_def)
  qed
  with loop show ?thesis by blast
qed

text \<open>
  Widths 99, 100, 200 and 201 through the filter loop, and a 16x16 and a 150x150 icon
  through the whole of \<^verbatim>\<open>postProcessIcons\<close>, with the bounds added in either order.
\<close>

theorem width_bounds_either_order_witness:
  "filter_loop (filters (New fx_client [MinWidth 100, MaxWidth 200]))
      [png_icon 99 99, png_icon 100 100, png_icon 200 200, png_icon 201 201]
     = [png_icon 100 100, png_icon 200 200]
   \<and> filter_loop (filters (New fx_client [MaxWidth 200, MinWidth 100]))
      [png_icon 99 99, png_icon 100 100, png_icon 200 200, png_icon 201 201]
     = [png_icon 100 100, png_icon 200 200]
   \<and> postProcessIcons fx_lib (newParser (New fx_client [MinWidth 100, MaxWidth 200]))
        [hash_16x16, hash_150x150] [png_icon 16 16, png_icon 150 150]
     = [(png_icon 150 150)\<lparr>Hash := hash_150x150\<rparr>]
   \<and> postProcessIcons fx_lib (newParser (New fx_client [MaxWidth 200, MinWidth 100]))
        [hash_16x16, hash_150x150] [png_icon 16 16, png_icon 150 150]
     = [(png_icon 150 150)\<lparr>Hash := hash_150x150\<rparr>]"
proof -
  let ?p1 = "newParser (New fx_client [MinWidth 100, MaxWidth 200])"
  let ?p2 = "newParser (New fx_client [MaxWidth 200, MinWidth 100])"
  let ?in = "[png_icon 16 16, png_icon 150 150]"
  have m: "range_map (tidy fx_lib (newParser f) ?in Map.empty) [hash_16x16, hash_150x150]
      = [(png_icon 16 16)\<lparr>Hash := hash_16x16\<rparr>, (png_icon 150 150)\<lparr>Hash := hash_150x150\<rparr>]" for f
    by (simp add: fx_normalize_16x16 fx_normalize_150x150 range_map_def List.map_filter_simps
        hashes_differ_150)
  have w: "Width ((png_icon 16 16)\<lparr>Hash := hash_16x16\<rparr>) = 16"
    "Width ((png_icon 150 150)\<lparr>Hash := hash_150x150\<rparr>) = 150"
    by (simp_all add: png_icon_def)
  from width_bounds_either_order
      [of fx_client "[png_icon 99 99, png_icon 100 100, png_icon 200 200, png_icon 201 201]"
          fx_lib ?p1 "[hash_16x16, hash_150x150]" ?in]
  have loops: "filter_loop (filters (New fx_client [MinWidth 100, MaxWidth 200]))
      [png_icon 99 99, png_icon 100 100, png_icon 200 200, png_icon 201 201]
     = [png_icon 100 100, png_icon 200 200]
   \<and> filter_loop (filters (New fx_client [MaxWidth 200, MinWidth 100]))
      [png_icon 99 99, png_icon 100 100, png_icon 200 200, png_icon 201 201]
     = [png_icon 100 100, png_icon 200 200]"
    by (simp add: png_icon_def)
  from width_bounds_either_order [of fx_client "[]" fx_lib ?p1 "[hash_16x16, hash_150x150]" ?in]
    fx_sort_permutes
  have "mset (postProcessIcons fx_lib ?p1 [hash_16x16, hash_150x150] ?in)
      = filter_mset (\<lambda>i. 100 \<le> Width i \<and> Width i \<le> 200)
          (mset (range_map (tidy fx_lib ?p1 ?in Map.empty) [hash_16x16, hash_150x150]))"
    by (simp del: tidy.simps)
  then have "mset (postProcessIcons fx_lib ?p1 [hash_16x16, hash_150x150] ?in)
      = {#(png_icon 150 150)\<lparr>Hash := hash_150x150\<rparr>#}"
    unfolding m by (simp add: w)
  then have r1: "postProcessIcons fx_lib ?p1 [hash_16x16, hash_150x150] ?in
      = [(png_icon 150 150)\<lparr>Hash := hash_150x150\<rparr>]"
    by (simp add: mset_single_iff_right)
  from width_bounds_either_order [of fx_client "[]" fx_lib ?p2 "[hash_16x16, hash_150x150]" ?in]
    fx_sort_permutes
  have "mset (postProcessIcons fx_lib ?p2 [hash_16x16, hash_150x150] ?in)
      = filter_mset (\<lambda>i. 100 \<le> Width i \<and> Width i \<le> 200)
          (mset (range_map (tidy fx_lib ?p2 ?in Map.empty) [hash_16x16, hash_150x150]))"
    by (simp del: tidy.simps)
  then have "mset (postProcessIcons fx_lib ?p2 [hash_16x16, hash_150x150] ?in)
      = {#(png_icon 150 150)\<lparr>Hash := hash_150x150\<rparr>#}"
    unfolding m by (simp add: w)
  then have r2: "postProcessIcons fx_lib ?p2 [hash_16x16, hash_150x150] ?in
      = [(png_icon 150 150)\<lparr>Hash := hash_150x150\<rparr>]"
    by (simp add: mset_single_iff_right)
  from loops r1 r2 show ?thesis by simp
qed

subsection \<open>C7: the identity hash\<close>

text \<open>
  Claim C7: \<^verbatim>\<open>iconHash\<close> is the SHA-256 digest, in hexadecimal, of the URL, a hyphen,
  the width in decimal, an \<^verbatim>\<open>x\<close> and the height in decimal; two icons of equal URL,
  width and height have the same hash, whatever their other fields.
\<close>

theorem iconHash_of_identity:
  "iconHash L i = fmt_x (sha256_Sum256 L
       (bytes_of (URL i @ ''-'' @ fmt_d (Width i) @ ''x'' @ fmt_d (Height i))))
   \<and> (URL a = URL b \<and> Width a = Width b \<and> Height a = Height b \<longrightarrow> iconHash L a = iconHash L b)"
  by (simp add: iconHash_def)

text \<open>The 16x16 icon as ICO and as PNG: one hash, the digest of \<^verbatim>\<open>https://a.com/i.png-16x16\<close>.\<close>

theorem iconHash_of_identity_witness:
  "iconHash fx_lib ((png_icon 16 16)\<lparr>MimeType := ''image/x-icon''\<rparr>) = iconHash fx_lib (png_icon 16 16)
   \<and> iconHash fx_lib (png_icon 16 16) = hash_16x16"
  using iconHash_of_identity
    [of fx_lib "png_icon 16 16" "(png_icon 16 16)\<lparr>MimeType := ''image/x-icon''\<rparr>" "png_icon 16 16"]
  by (simp add: png_icon_def fx_lib_def fx_Sum256_def fmt_d_def fmt_nat.simps digit_char_def
      bytes_of_def fmt_x_def hash_16x16_def)

subsection \<open>C8: square icons\<close>

text \<open>
  Claim C8: \<^verbatim>\<open>IsSquare\<close> holds exactly when width and height are equal; an icon of
  unknown size, 0 by 0, is square, and the filter of \<^verbatim>\<open>OnlySquare\<close> returns it; the
  filter rejects every icon whose width differs from its height.
\<close>

theorem IsSquare_OnlySquare:
  "(IsSquare i \<longleftrightarrow> Width i = Height i)
   \<and> (Width i = 0 \<and> Height i = 0 \<longrightarrow>
        IsSquare i \<and> apply_filters (filters (New c0 [OnlySquare])) i = Some i)
   \<and> (Width i \<noteq> Height i \<longrightarrow> apply_filters (filters (New c0 [OnlySquare])) i = None)"
  by (simp add: IsSquare_def New_def OnlySquare_def WithFilter_def OnlySquare_filter_def)

theorem IsSquare_OnlySquare_witness:
  "IsSquare (png_icon 0 0)
   \<and> apply_filters (filters (New fx_client [OnlySquare])) (png_icon 0 0) = Some (png_icon 0 0)
   \<and> \<not> IsSquare (png_icon 16 32)
   \<and> apply_filters (filters (New fx_client [OnlySquare])) (png_icon 16 32) = None"
  using IsSquare_OnlySquare [of "png_icon 0 0" fx_client]
    IsSquare_OnlySquare [of "png_icon 16 32" fx_client]
  by (simp add: png_icon_def)

subsection \<open>C9: the well-known paths\<close>

text \<open>
  Claim C9: without a base URL \<^verbatim>\<open>findWellKnownIcons\<close> returns no icon (and sends
  nothing). With a base URL it asks for \<^verbatim>\<open>favicon.ico\<close> and then for
  \<^verbatim>\<open>apple-touch-icon.png\<close> under \<^verbatim>\<open>scheme://host/\<close>, for nothing else, and returns
  an icon for each of the two whose fetch succeeds, in that order. A fetch fails, and
  \<^verbatim>\<open>fetchURL\<close> returns an error that goes no further, exactly when the request cannot
  be built, the transport fails, or the status is 300 or above.
\<close>

theorem findWellKnownIcons_probes:
  "(baseURL p = None \<longrightarrow> findWellKnownIcons L p w = ([], w))
   \<and> (baseURL p = Some b \<longrightarrow>
        fst (findWellKnownIcons L p w)
          = map Icon_of_URL (filter (fetch_succeeds L (pfind p))
              [Scheme b @ ''://'' @ Host b @ ''/'' @ ''favicon.ico'',
               Scheme b @ ''://'' @ Host b @ ''/'' @ ''apple-touch-icon.png''])
        \<and> sent (snd (findWellKnownIcons L p w))
          = sent w @ List.map_filter (build_request L)
              [Scheme b @ ''://'' @ Host b @ ''/'' @ ''favicon.ico'',
               Scheme b @ ''://'' @ Host b @ ''/'' @ ''apple-touch-icon.png''])
   \<and> (isl (fst (fetchURL L f u w)) \<longleftrightarrow> \<not> fetch_succeeds L f u)"
proof -
  have "fst (findWellKnownIcons L p w)
          = map Icon_of_URL (filter (fetch_succeeds L (pfind p))
              [Scheme b @ ''://'' @ Host b @ ''/'' @ ''favicon.ico'',
               Scheme b @ ''://'' @ Host b @ ''/'' @ ''apple-touch-icon.png''])
        \<and> sent (snd (findWellKnownIcons L p w))
          = sent w @ List.map_filter (build_request L)
              [Scheme b @ ''://'' @ Host b @ ''/'' @ ''favicon.ico'',
               Scheme b @ ''://'' @ Host b @ ''/'' @ ''apple-touch-icon.png'']"
    if "baseURL p = Some b"
    using that wellKnown_loop_result [of L p "Scheme b @ ''://'' @ Host b @ ''/''" iconNames "[]" w]
    by (simp add: findWellKnownIcons_def iconNames_def)
  moreover have "baseURL p = None \<longrightarrow> findWellKnownIcons L p w = ([], w)"
    by (simp add: findWellKnownIcons_def)
  ultimately show ?thesis
    using fetchURL_isl [of L f u w] by blast
qed

text \<open>
  A server at \<^verbatim>\<open>https://a.com\<close> that answers 200 for \<^verbatim>\<open>/favicon.ico\<close> and 404 for
  the rest: both names are asked for, in order, and one icon comes back.
\<close>

theorem findWellKnownIcons_probes_witness:
  "findWellKnownIcons fx_lib (newParser fx_finder) world0 = ([], world0)
   \<and> fst (findWellKnownIcons fx_lib parser_a_com world0) = [Icon_of_URL ''https://a.com/favicon.ico'']
   \<and> map ReqURL (sent (snd (findWellKnownIcons fx_lib parser_a_com world0)))
       = [''https://a.com/favicon.ico'', ''https://a.com/apple-touch-icon.png'']
   \<and> isl (fst (fetchURL fx_lib fx_finder ''https://a.com/apple-touch-icon.png'' world0))"
proof -
  have b: "baseURL parser_a_com = Some base_a_com"
    by (simp add: parser_a_com_def)
  have f: "pfind parser_a_com = fx_finder"
    by (simp add: parser_a_com_def)
  have c: "client fx_finder = fx_client"
    by (simp add: fx_finder_def New_def)
  have r1: "build_request fx_lib ''https://a.com/favicon.ico''
      = Some \<lparr>Method = ''GET'', ReqURL = ''https://a.com/favicon.ico'',
              Header = [(''User-Agent'', ''go-favicon/0.1'')]\<rparr>"
    by (simp add: build_request_def fx_lib_def fx_NewRequest_def fx_Parse_def UserAgent_def)
  have r2: "build_request fx_lib ''https://a.com/apple-touch-icon.png''
      = Some \<lparr>Method = ''GET'', ReqURL = ''https://a.com/apple-touch-icon.png'',
              Header = [(''User-Agent'', ''go-favicon/0.1'')]\<rparr>"
    by (simp add: build_request_def fx_lib_def fx_NewRequest_def fx_Parse_def UserAgent_def)
  have s1: "fetch_succeeds fx_lib fx_finder ''https://a.com/favicon.ico''"
    by (simp add: fetch_succeeds_def r1 c fx_client_def)
  have s2: "\<not> fetch_succeeds fx_lib fx_finder ''https://a.com/apple-touch-icon.png''"
    by (simp add: fetch_succeeds_def r2 c fx_client_def)
  from findWellKnownIcons_probes [of "newParser fx_finder" fx_lib world0 base_a_com fx_finder
      "''https://a.com/apple-touch-icon.png''"]
    findWellKnownIcons_probes [of parser_a_com fx_lib world0 base_a_com fx_finder
      "''https://a.com/apple-touch-icon.png''"]
    b f r1 r2 s1 s2
  show ?thesis
    by (simp add: base_a_com_def no_url_def world0_def List.map_filter_simps)
qed

subsection \<open>C10: an empty list of MIME types\<close>

text \<open>
  Claim C10: the filter of \<^verbatim>\<open>OnlyMimeType()\<close>, called with no MIME type, returns nil
  for every icon; a Finder built with it has this filter, and \<^verbatim>\<open>postProcessIcons\<close>
  of a Finder that has it returns no icon, whatever the candidates.
\<close>

theorem OnlyMimeType_empty_rejects:
  "OnlyMimeType_filter [] i = None
   \<and> filters (New c0 [OnlyMimeType []]) = [OnlyMimeType_filter []]
   \<and> (sort_permutes L \<and> OnlyMimeType_filter [] \<in> set (filters (pfind p)) \<longrightarrow>
        postProcessIcons L p order icons = [])"
proof -
  have rej: "\<forall>i. OnlyMimeType_filter [] i = None"
    by (simp add: OnlyMimeType_filter_def)
  have "postProcessIcons L p order icons = []"
    if "sort_permutes L" and "OnlyMimeType_filter [] \<in> set (filters (pfind p))"
  proof -
    from that(2) rej
    have "filter_loop (filters (pfind p)) (range_map (tidy L p icons Map.empty) order) = []"
      by (rule filter_loop_reject)
    then have "mset (postProcessIcons L p order icons) = {#}"
      using that(1) by (simp add: postProcessIcons_unfold sort_permutes_def)
    then show ?thesis by simp
  qed
  then show ?thesis
    using rej by (simp add: New_def OnlyMimeType_def WithFilter_def)
qed

theorem OnlyMimeType_empty_rejects_witness:
  "OnlyMimeType_filter [] (png_icon 16 16) = None
   \<and> postProcessIcons fx_lib (newParser (New fx_client [OnlyMimeType []])) [hash_16x16]
        [png_icon 16 16] = []"
proof -
  have "OnlyMimeType_filter [] \<in> set (filters (pfind (newParser (New fx_client [OnlyMimeType []]))))"
    by (simp add: New_def OnlyMimeType_def WithFilter_def)
  with OnlyMimeType_empty_rejects
      [of "png_icon 16 16" fx_client fx_lib "newParser (New fx_client [OnlyMimeType []])"
        "[hash_16x16]" "[png_icon 16 16]"]
    fx_sort_permutes
  show ?thesis by simp
qed

end
